theory Spec2Isabelle
  imports Complex_Main
begin

section \<open>Python texts and the operations the crawler applies to them\<close>

text \<open>
  A Python \<open>str\<close> is modelled as a \<open>string\<close>, a list of 8-bit characters read as the
  code points U+0000 to U+00FF. The three characters that cannot be written inside a
  string literal get names.
\<close>

abbreviation bsl :: char where "bsl \<equiv> CHR 0x5C"
abbreviation dq :: char where "dq \<equiv> CHR 0x22"
abbreviation nl :: char where "nl \<equiv> CHR 0x0A"

text \<open>The exceptions that occur in the modelled code, by their Python class.\<close>

datatype exn =
    IndexError
  | ValueError
  | JSONDecodeError
  | TypeError
  | AttributeError
  | KeyError
  | OverflowError
  | RequestException string

definition startswith :: "'a list \<Rightarrow> 'a list \<Rightarrow> bool" where
  "startswith p s = (take (length p) s = p)"

text \<open>\<open>sub in s\<close> for texts.\<close>

fun contains :: "'a list \<Rightarrow> 'a list \<Rightarrow> bool" where
  "contains sub [] = (sub = [])"
| "contains sub (c # cs) = (startswith sub (c # cs) \<or> contains sub cs)"

text \<open>
  \<open>s.split(sep)\<close>: the segments between the leftmost non-overlapping occurrences of
  \<open>sep\<close>. Every call site of the source passes a non-empty literal separator (Python
  raises on an empty one; the model then leaves the text unsplit).
\<close>

function py_split :: "'a list \<Rightarrow> 'a list \<Rightarrow> 'a list list" where
  "py_split sep [] = [[]]"
| "py_split sep (c # cs) =
     (if sep \<noteq> [] \<and> startswith sep (c # cs)
      then [] # py_split sep (drop (length sep) (c # cs))
      else (case py_split sep cs of
              seg # segs \<Rightarrow> (c # seg) # segs
            | [] \<Rightarrow> [[c]]))"
  by pat_completeness auto
termination
  by (relation "measure (\<lambda>(sep, s). length s)") auto

text \<open>\<open>s.replace(old, new)\<close>, leftmost non-overlapping, for a non-empty \<open>old\<close>.\<close>

function py_replace :: "'a list \<Rightarrow> 'a list \<Rightarrow> 'a list \<Rightarrow> 'a list" where
  "py_replace old new [] = []"
| "py_replace old new (c # cs) =
     (if old \<noteq> [] \<and> startswith old (c # cs)
      then new @ py_replace old new (drop (length old) (c # cs))
      else c # py_replace old new cs)"
  by pat_completeness auto
termination
  by (relation "measure (\<lambda>(old, new, s). length s)") auto

text \<open>\<open>xs[i]\<close>: a negative index counts from the end, an index out of range raises.\<close>

definition py_index :: "'a list \<Rightarrow> int \<Rightarrow> exn + 'a" where
  "py_index xs i =
     (if 0 \<le> i \<and> i < int (length xs) then Inr (xs ! nat i)
      else if i < 0 \<and> - int (length xs) \<le> i then Inr (xs ! nat (int (length xs) + i))
      else Inl IndexError)"

text \<open>\<open>s[:-2]\<close>: the text without its last two characters (empty when it has fewer).\<close>

definition drop_last2 :: "'a list \<Rightarrow> 'a list" where
  "drop_last2 s = take (length s - 2) s"


section \<open>The transport client: \<open>make_request_with_retry\<close>\<close>

text \<open>
  The network and the random generator are the environment of the crawl. \<open>post w i d\<close>
  is the outcome of the \<open>i\<close>-th POST the process issues (counted from 0) when its body
  is \<open>d\<close>, after \<open>raise_for_status\<close>: the response text, or the exception raised.
  \<open>uniform01 w i\<close> is the \<open>i\<close>-th value drawn from \<open>random.random()\<close>. Durations
  are rational numbers of seconds.
\<close>

record world =
  post :: "nat \<Rightarrow> string \<Rightarrow> exn + string"
  uniform01 :: "nat \<Rightarrow> rat"

datatype event = Post string | Sleep rat

record io =
  posts :: nat
  draws :: nat
  trace :: "event list"

definition io0 :: io where
  "io0 = \<lparr>posts = 0, draws = 0, trace = []\<rparr>"

definition do_post :: "world \<Rightarrow> string \<Rightarrow> io \<Rightarrow> (exn + string) \<times> io" where
  "do_post w d s =
     (post w (posts s) d, s\<lparr>posts := Suc (posts s), trace := trace s @ [Post d]\<rparr>)"

text \<open>\<open>random.uniform(a, b)\<close>, computed by the library as \<open>a + (b - a) * random()\<close>.\<close>

definition random_uniform :: "world \<Rightarrow> rat \<Rightarrow> rat \<Rightarrow> io \<Rightarrow> rat \<times> io" where
  "random_uniform w a b s = (a + (b - a) * uniform01 w (draws s), s\<lparr>draws := Suc (draws s)\<rparr>)"

definition time_sleep :: "rat \<Rightarrow> io \<Rightarrow> io" where
  "time_sleep t s = s\<lparr>trace := trace s @ [Sleep t]\<rparr>"

fun is_request_exception :: "exn \<Rightarrow> bool" where
  "is_request_exception (RequestException m) = True"
| "is_request_exception e = False"

text \<open>
  The \<open>for attempt in range(self.max_retries)\<close> loop, entered at \<open>attempt\<close>. A
  response returns at once; a \<open>RequestException\<close> is followed by a sleep of
  \<open>2 ** attempt + random.uniform(0, 1)\<close> when another attempt remains and is re-raised
  otherwise; any other exception propagates; the exhausted range falls through to
  \<open>return ""\<close>.
\<close>

function retry_loop :: "world \<Rightarrow> int \<Rightarrow> string \<Rightarrow> nat \<Rightarrow> io \<Rightarrow> (exn + string) \<times> io" where
  "retry_loop w max_retries d attempt s =
     (if int attempt < max_retries then
        (case do_post w d s of
           (Inr text, s1) \<Rightarrow> (Inr text, s1)
         | (Inl e, s1) \<Rightarrow>
             if is_request_exception e then
               (if int attempt < max_retries - 1
                then (case random_uniform w 0 1 s1 of
                        (jitter, s2) \<Rightarrow>
                          retry_loop w max_retries d (Suc attempt)
                            (time_sleep (2 ^ attempt + jitter) s2))
                else (Inl e, s1))
             else (Inl e, s1))
      else (Inr [], s))"
  by pat_completeness auto
termination
  by (relation "measure (\<lambda>(w, max_retries, d, attempt, s). nat (max_retries - int attempt))") auto

declare retry_loop.simps [simp del]

definition make_request_with_retry :: "world \<Rightarrow> int \<Rightarrow> string \<Rightarrow> io \<Rightarrow> (exn + string) \<times> io" where
  "make_request_with_retry w max_retries d s = retry_loop w max_retries d 0 s"

text \<open>
  The events of \<open>j\<close> failed attempts, the first of them attempt \<open>a\<close>, each followed
  by its backoff sleep; \<open>dr\<close> is the number of random draws made before.
\<close>

definition backoff_events :: "world \<Rightarrow> string \<Rightarrow> nat \<Rightarrow> nat \<Rightarrow> nat \<Rightarrow> event list" where
  "backoff_events w d a dr j =
     concat (map (\<lambda>k. [Post d, Sleep (2 ^ (a + k) + uniform01 w (dr + k))]) [0..<j])"

text \<open>\<open>add_delay\<close>: one sleep of \<open>random.uniform(*self.delay_range)\<close>.\<close>

definition add_delay :: "world \<Rightarrow> rat \<times> rat \<Rightarrow> io \<Rightarrow> io" where
  "add_delay w delay_range s =
     (case random_uniform w (fst delay_range) (snd delay_range) s of
        (delay, s1) \<Rightarrow> time_sleep delay s1)"


section \<open>Python values\<close>

text \<open>
  The values \<open>json.loads\<close> produces, and therefore the values a raw row holds. A float
  is a value of an abstract type \<open>'f\<close>; a dictionary is the list of its items in
  insertion order, its keys distinct.
\<close>

datatype 'f pyval =
    PNone
  | PBool bool
  | PInt int
  | PFloat 'f
  | PStr string
  | PList "'f pyval list"
  | PDict "(string \<times> 'f pyval) list"

text \<open>
  What the standard library and the platform do, and the model does not look into:
  floating point, calendar time and the JSON decoder. \<open>json_loads\<close> returns the decoded
  value or the exception raised; \<open>flt_of_text s\<close> is the value of \<open>float(s)\<close> for a
  text the float syntax accepts; \<open>flt_of_int n\<close> is \<open>float(n)\<close>, \<open>None\<close> standing for
  OverflowError; \<open>flt_trunc f\<close> is \<open>int(f)\<close>, which fails on infinities and NaN;
  \<open>timestamp_date v\<close> is the outcome of
  \<open>datetime.fromtimestamp(float(v)).strftime('%Y-%m-%d')\<close>.
\<close>

record 'f pylib =
  json_loads :: "string \<Rightarrow> exn + 'f pyval"
  flt_of_text :: "string \<Rightarrow> 'f"
  flt_of_int :: "int \<Rightarrow> 'f option"
  flt_str :: "'f \<Rightarrow> string"
  flt_nonzero :: "'f \<Rightarrow> bool"
  flt_round2 :: "'f \<Rightarrow> 'f"
  flt_trunc :: "'f \<Rightarrow> exn + int"
  timestamp_date :: "'f pyval \<Rightarrow> exn + string"

text \<open>\<open>v[i]\<close> for a constant index \<open>i \<ge> 0\<close>, on any value.\<close>

fun subscript :: "'f pyval \<Rightarrow> nat \<Rightarrow> exn + 'f pyval" where
  "subscript (PList xs) i = py_index xs (int i)"
| "subscript (PStr s) i = (if i < length s then Inr (PStr [s ! i]) else Inl IndexError)"
| "subscript (PDict d) i = Inl KeyError"
| "subscript v i = Inl TypeError"


section \<open>The response extractor: \<open>fix_json_response\<close>\<close>

abbreviation open5 :: string where "open5 \<equiv> ''[[[[[''"
abbreviation close6 :: string where "close6 \<equiv> '']]]]]]''"

text \<open>
  The text surgery of steps 1 to 6, on a response that contains the opening sentinel;
  an index into the result of a split is the only step that can raise.
\<close>

definition fix_json_text :: "string \<Rightarrow> exn + string" where
  "fix_json_text response_text =
     (case py_index (py_split open5 response_text) 1 of
        Inl e \<Rightarrow> Inl e
      | Inr seg \<Rightarrow>
          (let step1 = open5 @ seg in
           case py_index (py_split close6 step1) 0 of
             Inl e \<Rightarrow> Inl e
           | Inr front \<Rightarrow>
               (let step2 = front @ close6;
                    step3 = py_replace [bsl, bsl] [bsl] step2;
                    step4 = py_replace [bsl, dq] [dq] step3;
                    step5 = py_replace [nl] [] step4;
                    step6 = drop_last2 step5
                in Inr step6)))"

text \<open>\<open>json.loads(step6)[0][0]\<close>.\<close>

definition load_rows :: "'f pylib \<Rightarrow> string \<Rightarrow> exn + 'f pyval" where
  "load_rows lib step6 =
     (case json_loads lib step6 of
        Inl e \<Rightarrow> Inl e
      | Inr v \<Rightarrow> (case subscript v 0 of Inl e \<Rightarrow> Inl e | Inr v0 \<Rightarrow> subscript v0 0))"

text \<open>
  \<open>except (IndexError, json.JSONDecodeError, ValueError) as e: raise ValueError(...)\<close>;
  any other exception leaves the function as it is.
\<close>

fun reraise_value_error :: "exn + 'a \<Rightarrow> exn + 'a" where
  "reraise_value_error (Inl IndexError) = Inl ValueError"
| "reraise_value_error (Inl JSONDecodeError) = Inl ValueError"
| "reraise_value_error (Inl ValueError) = Inl ValueError"
| "reraise_value_error r = r"

definition fix_json_response :: "'f pylib \<Rightarrow> string \<Rightarrow> exn + 'f pyval" where
  "fix_json_response lib response_text =
     reraise_value_error
       (if \<not> contains open5 response_text then Inl ValueError
        else (case fix_json_text response_text of
                Inl e \<Rightarrow> Inl e
              | Inr step6 \<Rightarrow> load_rows lib step6))"


section \<open>The pagination tracker: \<open>extract_pagination_token\<close>\<close>

text \<open>
  The result is the returned value together with the text written to
  \<open>output/debug_response.txt\<close>, if any: the handler of the \<open>try\<close> block writes the
  response there and returns \<open>None\<close>.
\<close>

definition extract_pagination_token :: "string \<Rightarrow> string option \<times> string option" where
  "extract_pagination_token response_text =
     (case py_index (py_split [CHR ''['', bsl, dq] response_text) (- 1) of
        Inl e \<Rightarrow> (None, Some response_text)
      | Inr token_phase2 \<Rightarrow>
          (case py_index (py_split [bsl] token_phase2) 0 of
             Inl e \<Rightarrow> (None, Some response_text)
           | Inr token \<Rightarrow> (Some token, None)))"


section \<open>Two concrete networks\<close>

text \<open>A network whose first POST fails and whose later ones answer, and one that is down.\<close>

definition flaky :: world where
  "flaky = \<lparr>post = (\<lambda>i d. if i = 0 then Inl (RequestException ''down'') else Inr ''ok''),
            uniform01 = (\<lambda>i. 1 / 2)\<rparr>"

definition down :: world where
  "down = \<lparr>post = (\<lambda>i d. Inl (RequestException ''down'')), uniform01 = (\<lambda>i. 1 / 2)\<rparr>"


section \<open>A JSON decoder\<close>

text \<open>
  \<open>json.loads\<close> on 8-bit texts, after the grammar of the standard library's decoder:
  white space is blank, tab, line feed and carriage return; a number is
  \<open>-?(0|[1-9][0-9]*)(.[0-9]+)?([eE][-+]?[0-9]+)?\<close>, an integer unless it has a fraction
  or an exponent; \<open>NaN\<close>, \<open>Infinity\<close> and \<open>-Infinity\<close> are accepted; a string may not
  hold a raw control character. The value of a float literal is left to the parameter
  \<open>fl\<close>. A \<open>u\<close> escape with a code above \<open>00ff\<close> denotes a character outside the 8-bit texts of
  this model: the decoder stops there with a decode error, so that it agrees with
  \<open>json.loads\<close> on every text without such an escape.
\<close>

definition is_ws :: "char \<Rightarrow> bool" where
  "is_ws c = (c = CHR '' '' \<or> c = CHR 0x09 \<or> c = nl \<or> c = CHR 0x0D)"

definition skip_ws :: "string \<Rightarrow> string" where
  "skip_ws s = dropWhile is_ws s"

text \<open>\<open>ord(c)\<close>.\<close>

definition py_ord :: "char \<Rightarrow> nat" where
  "py_ord c = of_char c"

definition is_digit :: "char \<Rightarrow> bool" where
  "is_digit c = (48 \<le> py_ord c \<and> py_ord c \<le> 57)"

definition digit_val :: "char \<Rightarrow> nat" where
  "digit_val c = py_ord c - 48"

definition nat_of_digits :: "string \<Rightarrow> nat" where
  "nat_of_digits s = foldl (\<lambda>n c. 10 * n + digit_val c) 0 s"

definition hex_val :: "char \<Rightarrow> nat option" where
  "hex_val c =
     (if is_digit c then Some (py_ord c - 48)
      else if 97 \<le> py_ord c \<and> py_ord c \<le> 102 then Some (py_ord c - 87)
      else if 65 \<le> py_ord c \<and> py_ord c \<le> 70 then Some (py_ord c - 55)
      else None)"

definition hex4 :: "char \<Rightarrow> char \<Rightarrow> char \<Rightarrow> char \<Rightarrow> nat option" where
  "hex4 a b c d =
     (case (hex_val a, hex_val b, hex_val c, hex_val d) of
        (Some x, Some y, Some z, Some u) \<Rightarrow> Some (((x * 16 + y) * 16 + z) * 16 + u)
      | _ \<Rightarrow> None)"

definition simple_escape :: "char \<Rightarrow> char option" where
  "simple_escape e =
     (if e = dq then Some dq
      else if e = bsl then Some bsl
      else if e = CHR ''/'' then Some CHR ''/''
      else if e = CHR ''b'' then Some (CHR 0x08)
      else if e = CHR ''f'' then Some (CHR 0x0C)
      else if e = CHR ''n'' then Some nl
      else if e = CHR ''r'' then Some (CHR 0x0D)
      else if e = CHR ''t'' then Some (CHR 0x09)
      else None)"

definition cons_res :: "char \<Rightarrow> (string \<times> string) option \<Rightarrow> (string \<times> string) option" where
  "cons_res c r = (case r of None \<Rightarrow> None | Some (t, rest) \<Rightarrow> Some (c # t, rest))"

fun scan_string :: "string \<Rightarrow> (string \<times> string) option" where
  "scan_string [] = None"
| "scan_string (c # cs) =
     (if c = dq then Some ([], cs)
      else if c = bsl then
        (case cs of
           [] \<Rightarrow> None
         | e # r \<Rightarrow>
             if e = CHR ''u'' then
               (case r of
                  h1 # h2 # h3 # h4 # r' \<Rightarrow>
                    (case hex4 h1 h2 h3 h4 of
                       None \<Rightarrow> None
                     | Some n \<Rightarrow> if n < 256 then cons_res (char_of n) (scan_string r') else None)
                | _ \<Rightarrow> None)
             else (case simple_escape e of
                     None \<Rightarrow> None
                   | Some ch \<Rightarrow> cons_res ch (scan_string r)))
      else if py_ord c < 32 then None
      else cons_res c (scan_string cs))"


text \<open>The three groups of the number pattern and the rest of the text.\<close>

definition scan_int_part :: "string \<Rightarrow> (string \<times> string) option" where
  "scan_int_part s =
     (let sign = (if startswith ''-'' s \<and> s \<noteq> [] then ''-'' else []);
          s1 = drop (length sign) s
      in case s1 of
           [] \<Rightarrow> None
         | c # cs \<Rightarrow>
             if c = CHR ''0'' then Some (sign @ ''0'', cs)
             else if is_digit c then Some (sign @ c # takeWhile is_digit cs, dropWhile is_digit cs)
             else None)"

definition scan_frac_part :: "string \<Rightarrow> string \<times> string" where
  "scan_frac_part s =
     (case s of
        c # d # cs \<Rightarrow>
          if c = CHR ''.'' \<and> is_digit d
          then (c # d # takeWhile is_digit cs, dropWhile is_digit cs)
          else ([], s)
      | _ \<Rightarrow> ([], s))"

definition scan_exp_part :: "string \<Rightarrow> string \<times> string" where
  "scan_exp_part s =
     (case s of
        [] \<Rightarrow> ([], s)
      | e # r \<Rightarrow>
          if e = CHR ''e'' \<or> e = CHR ''E'' then
            (let sign = (case r of
                           c # _ \<Rightarrow> if c = CHR ''+'' \<or> c = CHR ''-'' then [c] else []
                         | [] \<Rightarrow> []);
                 r1 = drop (length sign) r
             in if takeWhile is_digit r1 = [] then ([], s)
                else (e # sign @ takeWhile is_digit r1, dropWhile is_digit r1))
          else ([], s))"

definition int_of_text :: "string \<Rightarrow> int" where
  "int_of_text s =
     (case s of
        [] \<Rightarrow> 0
      | c # cs \<Rightarrow> if c = CHR ''-'' then - int (nat_of_digits cs) else int (nat_of_digits s))"

definition scan_number :: "(string \<Rightarrow> 'f) \<Rightarrow> string \<Rightarrow> ('f pyval \<times> string) option" where
  "scan_number fl s =
     (case scan_int_part s of
        None \<Rightarrow> None
      | Some (integer, r1) \<Rightarrow>
          (case scan_frac_part r1 of
             (fr, r2) \<Rightarrow>
               (case scan_exp_part r2 of
                  (ex, r3) \<Rightarrow>
                    if fr = [] \<and> ex = [] then Some (PInt (int_of_text integer), r3)
                    else Some (PFloat (fl (integer @ fr @ ex)), r3))))"

text \<open>The scalar cases of \<open>scan_once\<close>, in the order of the library.\<close>

definition scan_scalar :: "(string \<Rightarrow> 'f) \<Rightarrow> string \<Rightarrow> ('f pyval \<times> string) option" where
  "scan_scalar fl s =
     (if startswith ''null'' s then Some (PNone, drop 4 s)
      else if startswith ''true'' s then Some (PBool True, drop 4 s)
      else if startswith ''false'' s then Some (PBool False, drop 5 s)
      else (case scan_number fl s of
              Some r \<Rightarrow> Some r
            | None \<Rightarrow>
                if startswith ''NaN'' s then Some (PFloat (fl ''nan''), drop 3 s)
                else if startswith ''Infinity'' s then Some (PFloat (fl ''inf''), drop 8 s)
                else if startswith ''-Infinity'' s then Some (PFloat (fl ''-inf''), drop 9 s)
                else None))"

text \<open>\<open>dict(pairs)\<close>: a later value for a key replaces the earlier one in place.\<close>

fun dict_set :: "(string \<times> 'v) list \<Rightarrow> string \<Rightarrow> 'v \<Rightarrow> (string \<times> 'v) list" where
  "dict_set [] k v = [(k, v)]"
| "dict_set ((k', v') # d) k v = (if k' = k then (k', v) # d else (k', v') # dict_set d k v)"

definition dict_of_pairs :: "(string \<times> 'v) list \<Rightarrow> (string \<times> 'v) list" where
  "dict_of_pairs kvs = foldl (\<lambda>d (k, v). dict_set d k v) [] kvs"

text \<open>Skipping white space does not lengthen a text: the measure of the decoder.\<close>

lemma length_skip_ws: "length (skip_ws s) \<le> length s"
  by (simp add: skip_ws_def length_dropWhile_le)

lemma skip_ws_Cons_length: "skip_ws r = c # r1 \<Longrightarrow> length r1 < length r"
  using length_skip_ws [of r] by simp

lemma skip_ws_lt: "length x < n \<Longrightarrow> length (skip_ws x) < n"
  using length_skip_ws [of x] by simp

lemma skip_ws_le: "length x \<le> n \<Longrightarrow> length (skip_ws x) \<le> n"
  using length_skip_ws [of x] by simp

function parse_value :: "(string \<Rightarrow> 'f) \<Rightarrow> string \<Rightarrow> ('f pyval \<times> string) option"
  and parse_items :: "(string \<Rightarrow> 'f) \<Rightarrow> string \<Rightarrow> ('f pyval list \<times> string) option"
  and parse_members :: "(string \<Rightarrow> 'f) \<Rightarrow> string \<Rightarrow> ((string \<times> 'f pyval) list \<times> string) option"
where
  "parse_value fl [] = None"
| "parse_value fl (c # cs) =
     (if c = dq then
        (case scan_string cs of None \<Rightarrow> None | Some (t, r) \<Rightarrow> Some (PStr t, r))
      else if c = CHR ''{'' then
        (case skip_ws cs of
           [] \<Rightarrow> None
         | c1 # r \<Rightarrow>
             if c1 = CHR ''}'' then Some (PDict [], r)
             else (case parse_members fl (skip_ws cs) of
                     None \<Rightarrow> None
                   | Some (kvs, r') \<Rightarrow> Some (PDict (dict_of_pairs kvs), r')))
      else if c = CHR ''['' then
        (case skip_ws cs of
           [] \<Rightarrow> None
         | c1 # r \<Rightarrow>
             if c1 = CHR '']'' then Some (PList [], r)
             else (case parse_items fl (skip_ws cs) of
                     None \<Rightarrow> None
                   | Some (vs, r') \<Rightarrow> Some (PList vs, r')))
      else scan_scalar fl (c # cs))"
| "parse_items fl s =
     (case parse_value fl s of
        None \<Rightarrow> None
      | Some (v, r) \<Rightarrow>
          if length r < length s then
            (case skip_ws r of
               [] \<Rightarrow> None
             | c # r1 \<Rightarrow>
                 if c = CHR '']'' then Some ([v], r1)
                 else if c = CHR '','' then
                   (case parse_items fl (skip_ws r1) of
                      None \<Rightarrow> None
                    | Some (vs, r2) \<Rightarrow> Some (v # vs, r2))
                 else None)
          else None)"
| "parse_members fl s =
     (case s of
        [] \<Rightarrow> None
      | q # s1 \<Rightarrow>
          if q \<noteq> dq then None
          else (case scan_string s1 of
                  None \<Rightarrow> None
                | Some (key, r) \<Rightarrow>
                    (case skip_ws r of
                       [] \<Rightarrow> None
                     | col # r1 \<Rightarrow>
                         if col \<noteq> CHR '':'' \<or> \<not> length r1 < length s then None
                         else (case parse_value fl (skip_ws r1) of
                                 None \<Rightarrow> None
                               | Some (v, r2) \<Rightarrow>
                                   if length r2 < length s then
                                     (case skip_ws r2 of
                                        [] \<Rightarrow> None
                                      | c # r3 \<Rightarrow>
                                          if c = CHR ''}'' then Some ([(key, v)], r3)
                                          else if c = CHR '','' then
                                            (case parse_members fl (skip_ws r3) of
                                               None \<Rightarrow> None
                                             | Some (kvs, r4) \<Rightarrow> Some ((key, v) # kvs, r4))
                                          else None)
                                   else None))))"
  by pat_completeness auto

termination
  apply (relation "measure (\<lambda>x. case x of
            Inl (fl, s) \<Rightarrow> 2 * length s
          | Inr (Inl (fl, s)) \<Rightarrow> 2 * length s + 1
          | Inr (Inr (fl, s)) \<Rightarrow> 2 * length s + 1)")
  apply (auto dest!: skip_ws_Cons_length intro!: skip_ws_lt skip_ws_le)
  subgoal for x22 a b x22a using length_skip_ws [of x22a] by linarith
  subgoal for fl x22 a b x22a aa ba x22b using length_skip_ws [of x22b] by linarith
  done

definition json_parse :: "(string \<Rightarrow> 'f) \<Rightarrow> string \<Rightarrow> exn + 'f pyval" where
  "json_parse fl s =
     (case parse_value fl (skip_ws s) of
        None \<Rightarrow> Inl JSONDecodeError
      | Some (v, r) \<Rightarrow> if skip_ws r = [] then Inr v else Inl JSONDecodeError)"

declare parse_items.simps [simp del] parse_members.simps [simp del]


section \<open>Conversions of Python values\<close>

text \<open>\<open>bool(v)\<close>.\<close>

fun truthy :: "'f pylib \<Rightarrow> 'f pyval \<Rightarrow> bool" where
  "truthy lib PNone = False"
| "truthy lib (PBool b) = b"
| "truthy lib (PInt n) = (n \<noteq> 0)"
| "truthy lib (PFloat f) = flt_nonzero lib f"
| "truthy lib (PStr s) = (s \<noteq> [])"
| "truthy lib (PList xs) = (xs \<noteq> [])"
| "truthy lib (PDict d) = (d \<noteq> [])"

text \<open>\<open>len(v)\<close>.\<close>

fun py_len :: "'f pyval \<Rightarrow> exn + nat" where
  "py_len (PList xs) = Inr (length xs)"
| "py_len (PStr s) = Inr (length s)"
| "py_len (PDict d) = Inr (length d)"
| "py_len v = Inl TypeError"

text \<open>The decimal text of an integer.\<close>

fun show_nat :: "nat \<Rightarrow> string" where
  "show_nat n =
     (if n < 10 then [char_of (48 + n)]
      else show_nat (n div 10) @ [char_of (48 + n mod 10)])"

declare show_nat.simps [simp del]

definition show_int :: "int \<Rightarrow> string" where
  "show_int i = (if i < 0 then CHR ''-'' # show_nat (nat (- i)) else show_nat (nat i))"

definition hex_digit :: "nat \<Rightarrow> char" where
  "hex_digit n = (if n < 10 then char_of (48 + n) else char_of (87 + n))"

text \<open>
  \<open>repr(s)\<close> of a text: single quotes unless the text holds a single quote and no
  double quote; the quote and the backslash escaped, tab, line feed and carriage return
  by letter, every other character that is not printable as \<open>xNN\<close>.
\<close>

definition printable :: "char \<Rightarrow> bool" where
  "printable c =
     ((32 \<le> py_ord c \<and> py_ord c < 127) \<or> (161 \<le> py_ord c \<and> py_ord c \<noteq> 173))"

definition repr_char :: "char \<Rightarrow> char \<Rightarrow> string" where
  "repr_char quote c =
     (if c = quote \<or> c = bsl then [bsl, c]
      else if c = CHR 0x09 then [bsl, CHR ''t'']
      else if c = nl then [bsl, CHR ''n'']
      else if c = CHR 0x0D then [bsl, CHR ''r'']
      else if printable c then [c]
      else [bsl, CHR ''x'', hex_digit (py_ord c div 16), hex_digit (py_ord c mod 16)])"

definition str_repr :: "string \<Rightarrow> string" where
  "str_repr s =
     (let quote = (if CHR 0x27 \<in> set s \<and> dq \<notin> set s then dq else CHR 0x27)
      in quote # concat (map (repr_char quote) s) @ [quote])"

fun join :: "string \<Rightarrow> string list \<Rightarrow> string" where
  "join sep [] = []"
| "join sep [x] = x"
| "join sep (x # y # ys) = x @ sep @ join sep (y # ys)"

text \<open>\<open>repr(v)\<close>, and \<open>str(v)\<close>, which differs from it on a text only.\<close>

fun py_repr :: "'f pylib \<Rightarrow> 'f pyval \<Rightarrow> string"
  and py_repr_items :: "'f pylib \<Rightarrow> 'f pyval list \<Rightarrow> string list"
  and py_repr_pairs :: "'f pylib \<Rightarrow> (string \<times> 'f pyval) list \<Rightarrow> string list"
where
  "py_repr lib PNone = ''None''"
| "py_repr lib (PBool b) = (if b then ''True'' else ''False'')"
| "py_repr lib (PInt n) = show_int n"
| "py_repr lib (PFloat f) = flt_str lib f"
| "py_repr lib (PStr s) = str_repr s"
| "py_repr lib (PList xs) = ''['' @ join '', '' (py_repr_items lib xs) @ '']''"
| "py_repr lib (PDict d) = ''{'' @ join '', '' (py_repr_pairs lib d) @ ''}''"
| "py_repr_items lib [] = []"
| "py_repr_items lib (x # xs) = py_repr lib x # py_repr_items lib xs"
| "py_repr_pairs lib [] = []"
| "py_repr_pairs lib ((k, v) # d) = (str_repr k @ '': '' @ py_repr lib v) # py_repr_pairs lib d"

definition py_str :: "'f pylib \<Rightarrow> 'f pyval \<Rightarrow> string" where
  "py_str lib v = (case v of PStr s \<Rightarrow> s | _ \<Rightarrow> py_repr lib v)"

text \<open>
  \<open>s.isdigit()\<close>: a non-empty text of digit characters, which up to U+00FF are the ten
  ASCII digits and the superscripts two, three and one.
\<close>

definition is_py_digit :: "char \<Rightarrow> bool" where
  "is_py_digit c = (is_digit c \<or> py_ord c = 178 \<or> py_ord c = 179 \<or> py_ord c = 185)"

definition isdigit :: "string \<Rightarrow> bool" where
  "isdigit s = (s \<noteq> [] \<and> list_all is_py_digit s)"

text \<open>\<open>s.strip()\<close>, on the white space of Python texts up to U+00FF.\<close>

definition is_space :: "char \<Rightarrow> bool" where
  "is_space c =
     ((9 \<le> py_ord c \<and> py_ord c \<le> 13) \<or> (28 \<le> py_ord c \<and> py_ord c \<le> 32)
      \<or> py_ord c = 133 \<or> py_ord c = 160)"

definition strip :: "string \<Rightarrow> string" where
  "strip s = rev (dropWhile is_space (rev (dropWhile is_space s)))"

text \<open>
  A run of decimal digits in which single underscores may separate digits: the digits
  read, and the rest of the text.
\<close>

fun digitpart_rest :: "string \<Rightarrow> string \<times> string" where
  "digitpart_rest (u # d # cs) =
     (if u = CHR ''_'' \<and> is_digit d then (case digitpart_rest cs of (ds, r) \<Rightarrow> (d # ds, r))
      else if is_digit u then (case digitpart_rest (d # cs) of (ds, r) \<Rightarrow> (u # ds, r))
      else ([], u # d # cs))"
| "digitpart_rest [d] = (if is_digit d then ([d], []) else ([], [d]))"
| "digitpart_rest [] = ([], [])"

definition digitpart :: "string \<Rightarrow> (string \<times> string) option" where
  "digitpart s =
     (case s of
        [] \<Rightarrow> None
      | d # cs \<Rightarrow> if is_digit d then (case digitpart_rest cs of (ds, r) \<Rightarrow> Some (d # ds, r))
                  else None)"

definition drop_sign :: "string \<Rightarrow> string" where
  "drop_sign s = (case s of [] \<Rightarrow> [] | c # cs \<Rightarrow> if c = CHR ''+'' \<or> c = CHR ''-'' then cs else s)"

text \<open>
  \<open>int(s)\<close> of a text, in base ten. A text of more than 4300 digits, sign and underscores
  not counted, exceeds the limit of the conversion (\<open>sys.int_info.default_max_str_digits\<close>)
  and raises \<open>ValueError\<close> as a malformed one does.
\<close>

definition max_str_digits :: nat where
  "max_str_digits = 4300"

definition int_of_str :: "string \<Rightarrow> exn + int" where
  "int_of_str s =
     (let t = strip s in
      case digitpart (drop_sign t) of
        Some (ds, []) \<Rightarrow>
          if max_str_digits < length ds then Inl ValueError
          else Inr (if startswith ''-'' t \<and> t \<noteq> [] then - int (nat_of_digits ds)
                    else int (nat_of_digits ds))
      | _ \<Rightarrow> Inl ValueError)"

definition lower :: "char \<Rightarrow> char" where
  "lower c = (if 65 \<le> py_ord c \<and> py_ord c \<le> 90 then char_of (py_ord c + 32) else c)"

definition exponent_ok :: "string \<Rightarrow> bool" where
  "exponent_ok s =
     (case s of
        [] \<Rightarrow> True
      | e # r \<Rightarrow>
          (e = CHR ''e'' \<or> e = CHR ''E'') \<and>
          (case digitpart (drop_sign r) of Some (ds, []) \<Rightarrow> True | _ \<Rightarrow> False))"

text \<open>The texts \<open>float(s)\<close> accepts.\<close>

definition float_syntax :: "string \<Rightarrow> bool" where
  "float_syntax s =
     (let t = drop_sign (strip s); l = map lower t in
      l = ''inf'' \<or> l = ''infinity'' \<or> l = ''nan'' \<or>
      (case digitpart t of
         Some (ds, r) \<Rightarrow>
           (case r of
              c # r1 \<Rightarrow>
                if c = CHR ''.'' then
                  (case digitpart r1 of Some (fs, r2) \<Rightarrow> exponent_ok r2 | None \<Rightarrow> exponent_ok r1)
                else exponent_ok r
            | [] \<Rightarrow> True)
       | None \<Rightarrow>
           (case t of
              c # r1 \<Rightarrow>
                c = CHR ''.'' \<and> (case digitpart r1 of Some (fs, r2) \<Rightarrow> exponent_ok r2 | None \<Rightarrow> False)
            | [] \<Rightarrow> False)))"

text \<open>\<open>float(v)\<close> and \<open>int(v)\<close>.\<close>

fun py_float :: "'f pylib \<Rightarrow> 'f pyval \<Rightarrow> exn + 'f" where
  "py_float lib (PStr s) = (if float_syntax s then Inr (flt_of_text lib s) else Inl ValueError)"
| "py_float lib (PInt n) = (case flt_of_int lib n of None \<Rightarrow> Inl OverflowError | Some f \<Rightarrow> Inr f)"
| "py_float lib (PBool b) =
     (case flt_of_int lib (if b then 1 else 0) of None \<Rightarrow> Inl OverflowError | Some f \<Rightarrow> Inr f)"
| "py_float lib (PFloat f) = Inr f"
| "py_float lib v = Inl TypeError"

fun py_int :: "'f pylib \<Rightarrow> 'f pyval \<Rightarrow> exn + int" where
  "py_int lib (PStr s) = int_of_str s"
| "py_int lib (PInt n) = Inr n"
| "py_int lib (PBool b) = Inr (if b then 1 else 0)"
| "py_int lib (PFloat f) = flt_trunc lib f"
| "py_int lib v = Inl TypeError"


section \<open>The record decoder: \<open>parse_extension_data\<close>\<close>

text \<open>
  The dataclass \<open>ChromeExtension\<close>. Its annotations are not enforced: \<open>version\<close> is
  whatever the manifest holds under that key, \<open>downloads\<close> is \<open>None\<close>, a text or an
  integer.
\<close>

record 'f extension =
  ext_id :: string
  name :: string
  display_name :: string
  short_description :: string
  category :: "string option"
  icon_link :: string
  downloads :: "'f pyval"
  rating :: "'f option"
  rating_count :: "int option"
  website :: "string option"
  good_record :: bool
  featured :: bool
  create_date :: string
  version :: "'f pyval"
  host_wide_permissions :: bool

text \<open>Sequencing of steps that may raise.\<close>

definition then_do :: "exn + 'a \<Rightarrow> ('a \<Rightarrow> exn + 'b) \<Rightarrow> exn + 'b" where
  "then_do r f = (case r of Inl e \<Rightarrow> Inl e | Inr x \<Rightarrow> f x)"

fun dict_get :: "(string \<times> 'v) list \<Rightarrow> string \<Rightarrow> 'v option" where
  "dict_get [] k = None"
| "dict_get ((k', v) # d) k = (if k' = k then Some v else dict_get d k)"

text \<open>
  The manifest: \<open>json.loads(item[18])\<close> when that value is a non-empty text, the empty
  dictionary when it is not or when the decoder raises \<open>JSONDecodeError\<close>.
\<close>

definition parse_manifest :: "'f pylib \<Rightarrow> 'f pyval \<Rightarrow> exn + 'f pyval" where
  "parse_manifest lib v =
     (case v of
        PStr s \<Rightarrow>
          if s \<noteq> [] then
            (case json_loads lib s of
               Inl JSONDecodeError \<Rightarrow> Inr (PDict [])
             | Inl e \<Rightarrow> Inl e
             | Inr m \<Rightarrow> Inr m)
          else Inr (PDict [])
      | _ \<Rightarrow> Inr (PDict []))"

text \<open>\<open>manifest.get('version', 'Unknown')\<close>: only a dictionary has \<open>get\<close>.\<close>

definition manifest_version :: "'f pyval \<Rightarrow> exn + 'f pyval" where
  "manifest_version manifest =
     (case manifest of
        PDict d \<Rightarrow> Inr (case dict_get d ''version'' of None \<Rightarrow> PStr ''Unknown'' | Some v \<Rightarrow> v)
      | _ \<Rightarrow> Inl AttributeError)"

definition wildcard_origin :: "'f pyval \<Rightarrow> bool" where
  "wildcard_origin perm = (perm = PStr ''http://*/*'' \<or> perm = PStr ''https://*/*'')"

definition manifest_host_wide :: "(string \<times> 'f pyval) list \<Rightarrow> bool" where
  "manifest_host_wide d =
     (case (dict_get d ''permissions'', dict_get d ''host_permissions'') of
        (Some p, Some (PList hs)) \<Rightarrow> list_ex wildcard_origin hs
      | _ \<Rightarrow> False)"

text \<open>
  The creation date: the handler of the inner \<open>try\<close> catches \<open>ValueError\<close> (of which
  \<open>JSONDecodeError\<close> is a subclass), \<open>IndexError\<close> and \<open>TypeError\<close>.
\<close>

definition parse_create_date :: "'f pylib \<Rightarrow> 'f pyval \<Rightarrow> exn + string" where
  "parse_create_date lib v =
     (case v of
        PList (x # xs) \<Rightarrow>
          (case timestamp_date lib x of
             Inr d \<Rightarrow> Inr d
           | Inl ValueError \<Rightarrow> Inr ''Unknown''
           | Inl JSONDecodeError \<Rightarrow> Inr ''Unknown''
           | Inl IndexError \<Rightarrow> Inr ''Unknown''
           | Inl TypeError \<Rightarrow> Inr ''Unknown''
           | Inl e \<Rightarrow> Inl e)
      | _ \<Rightarrow> Inr ''Unknown'')"

text \<open>The test that guards the rating, and the rating.\<close>

definition rating_gate :: "'f pylib \<Rightarrow> 'f pyval \<Rightarrow> bool" where
  "rating_gate lib v =
     (truthy lib v \<and> isdigit (py_replace ''-'' [] (py_replace ''.'' [] (py_str lib v))))"

definition parse_rating :: "'f pylib \<Rightarrow> 'f pyval \<Rightarrow> exn + 'f option" where
  "parse_rating lib v =
     (if rating_gate lib v
      then then_do (py_float lib v) (\<lambda>f. Inr (Some (flt_round2 lib f)))
      else Inr None)"

definition parse_rating_count :: "'f pylib \<Rightarrow> 'f pyval \<Rightarrow> exn + int option" where
  "parse_rating_count lib v =
     (if truthy lib v \<and> isdigit (py_str lib v)
      then then_do (py_int lib v) (\<lambda>n. Inr (Some n))
      else Inr None)"

definition parse_category :: "'f pylib \<Rightarrow> 'f pyval \<Rightarrow> string option" where
  "parse_category lib v = (case v of PList (x # xs) \<Rightarrow> Some (py_str lib x) | _ \<Rightarrow> None)"

definition parse_downloads :: "'f pylib \<Rightarrow> 'f pyval \<Rightarrow> exn + 'f pyval" where
  "parse_downloads lib v =
     (if truthy lib v then
        (if \<not> isdigit (py_str lib v) then Inr (PStr (py_str lib v))
         else then_do (py_int lib v) (\<lambda>n. Inr (PInt n)))
      else Inr PNone)"

text \<open>\<open>str(v) if v else ""\<close>, \<open>str(v) if v else None\<close> and \<open>bool(v) if v is not None else False\<close>.\<close>

definition str_or_empty :: "'f pylib \<Rightarrow> 'f pyval \<Rightarrow> string" where
  "str_or_empty lib v = (if truthy lib v then py_str lib v else [])"

definition str_or_none :: "'f pylib \<Rightarrow> 'f pyval \<Rightarrow> string option" where
  "str_or_none lib v = (if truthy lib v then Some (py_str lib v) else None)"

definition bool_or_false :: "'f pylib \<Rightarrow> 'f pyval \<Rightarrow> bool" where
  "bool_or_false lib v = (v \<noteq> PNone \<and> truthy lib v)"

text \<open>
  The body of the outer \<open>try\<close> after the emptiness test, in the order of the source; the
  result is the constructed object, before the validation of \<open>id\<close> and \<open>name\<close>.
\<close>

definition build_extension :: "'f pylib \<Rightarrow> 'f pyval \<Rightarrow> exn + 'f extension" where
  "build_extension lib item =
     then_do (subscript item 18) (\<lambda>i18.
     then_do (parse_manifest lib i18) (\<lambda>manifest.
     then_do (manifest_version manifest) (\<lambda>ver.
     then_do (subscript item 17) (\<lambda>i17.
     then_do (parse_create_date lib i17) (\<lambda>date.
     then_do (subscript item 3) (\<lambda>i3.
     then_do (parse_rating lib i3) (\<lambda>rat.
     then_do (subscript item 4) (\<lambda>i4.
     then_do (parse_rating_count lib i4) (\<lambda>cnt.
     then_do (subscript item 11) (\<lambda>i11.
     then_do (subscript item 14) (\<lambda>i14.
     then_do (parse_downloads lib i14) (\<lambda>dl.
     then_do (subscript item 0) (\<lambda>i0.
     then_do (subscript item 2) (\<lambda>i2.
     then_do (py_len item) (\<lambda>n.
     then_do (if 19 < n then subscript item 19 else Inr PNone) (\<lambda>i19.
     then_do (subscript item 6) (\<lambda>i6.
     then_do (subscript item 1) (\<lambda>i1.
     then_do (subscript item 7) (\<lambda>i7.
     then_do (subscript item 8) (\<lambda>i8.
     then_do (subscript item 9) (\<lambda>i9.
       Inr \<lparr>ext_id = str_or_empty lib i0,
            name = str_or_empty lib i2,
            display_name = str_or_empty lib i19,
            short_description = str_or_empty lib i6,
            category = parse_category lib i11,
            icon_link = str_or_empty lib i1,
            downloads = dl,
            rating = rat,
            rating_count = cnt,
            website = str_or_none lib i7,
            good_record = bool_or_false lib i8,
            featured = bool_or_false lib i9,
            create_date = date,
            version = ver,
            host_wide_permissions =
              (case manifest of PDict d \<Rightarrow> manifest_host_wide d | _ \<Rightarrow> False)\<rparr>
     )))))))))))))))))))))"

text \<open>
  \<open>parse_extension_data\<close>: an empty item, any exception of the body, and an empty
  \<open>id\<close> or \<open>name\<close> all give \<open>None\<close>.
\<close>

definition parse_extension_data :: "'f pylib \<Rightarrow> 'f pyval \<Rightarrow> 'f extension option" where
  "parse_extension_data lib item =
     (if \<not> truthy lib item then None
      else (case build_extension lib item of
              Inl e \<Rightarrow> None
            | Inr extension \<Rightarrow>
                if ext_id extension = [] \<or> name extension = [] then None
                else Some extension))"


section \<open>A concrete library\<close>

text \<open>
  A library for closed examples: the JSON decoder above, a float kept as the text it was
  read from, no calendar. No example below depends on the value of a float.
\<close>

definition text_lib :: "string pylib" where
  "text_lib =
     \<lparr>json_loads = json_parse id,
      flt_of_text = id,
      flt_of_int = (\<lambda>n. Some (show_int n @ ''.0'')),
      flt_str = id,
      flt_nonzero = (\<lambda>f. f \<noteq> ''0.0'' \<and> f \<noteq> ''-0.0''),
      flt_round2 = id,
      flt_trunc = (\<lambda>f. Inl ValueError),
      timestamp_date = (\<lambda>v. Inl TypeError)\<rparr>"


section \<open>The envelope of a payload\<close>

text \<open>
  The escaping of a JSON text embedded in a JSON string, as the specification words it:
  a backslash becomes two backslashes, a double quote becomes backslash and quote.
\<close>

definition escape_char :: "char \<Rightarrow> string" where
  "escape_char c = (if c = bsl then [bsl, bsl] else if c = dq then [bsl, dq] else [c])"

definition double_escape :: "string \<Rightarrow> string" where
  "double_escape s = concat (map escape_char s)"

text \<open>The text after the first replacement of the extractor: only quotes stay escaped.\<close>

definition quote_escape :: "string \<Rightarrow> string" where
  "quote_escape s = concat (map (\<lambda>c. if c = dq then [bsl, dq] else [c]) s)"


section \<open>The request builder: \<open>build_request_data\<close>\<close>

text \<open>\<open>f"{amount}"\<close> for the page size, which the orchestrator passes as an integer or \<open>None\<close>.\<close>

definition format_amount :: "int option \<Rightarrow> string" where
  "format_amount amount = (case amount of None \<Rightarrow> ''None'' | Some n \<Rightarrow> show_int n)"

text \<open>The f-string of the sub-payload: query and token are spliced in as they are.\<close>

definition sub_payload :: "string \<Rightarrow> int option \<Rightarrow> string option \<Rightarrow> string" where
  "sub_payload query amount page_token =
     (case page_token of
        None \<Rightarrow>
          ''[[null,[[3,'' @ [dq] @ query @ [dq] @ '',null,null,2,['' @ format_amount amount @ '']]]]]''
      | Some token \<Rightarrow>
          ''[[null,[[3,'' @ [dq] @ query @ [dq] @ '',null,null,2,['' @ format_amount amount
            @ '','' @ [dq] @ token @ [dq] @ '']]]]]'')"

text \<open>
  \<open>json.dumps\<close> of a text with the default \<open>ensure_ascii\<close>: quote and backslash escaped,
  the five short escapes, every other character outside blank to tilde as \<open>u00NN\<close>.
\<close>

definition dumps_char :: "char \<Rightarrow> string" where
  "dumps_char c =
     (if c = dq then [bsl, dq]
      else if c = bsl then [bsl, bsl]
      else if c = nl then [bsl, CHR ''n'']
      else if c = CHR 0x0D then [bsl, CHR ''r'']
      else if c = CHR 0x09 then [bsl, CHR ''t'']
      else if c = CHR 0x08 then [bsl, CHR ''b'']
      else if c = CHR 0x0C then [bsl, CHR ''f'']
      else if 32 \<le> py_ord c \<and> py_ord c \<le> 126 then [c]
      else [bsl, CHR ''u'', CHR ''0'', CHR ''0'',
            hex_digit (py_ord c div 16), hex_digit (py_ord c mod 16)])"

definition dumps_str :: "string \<Rightarrow> string" where
  "dumps_str s = dq # concat (map dumps_char s) @ [dq]"

text \<open>\<open>json.dumps([[["zTyKYc", sub, None, "generic"]]])\<close>, with the default separators.\<close>

definition dumps_request :: "string \<Rightarrow> string" where
  "dumps_request sub =
     ''[[['' @ dumps_str ''zTyKYc'' @ '', '' @ dumps_str sub @ '', null, ''
       @ dumps_str ''generic'' @ '']]]''"

text \<open>
  \<open>urllib.parse.quote\<close> with the default safe character: letters, digits and
  \<open>_.-~/\<close> stay, every other character becomes the percent-encoded bytes of its
  UTF-8 form, in upper-case hexadecimal.
\<close>

definition upper_hex :: "nat \<Rightarrow> char" where
  "upper_hex n = (if n < 10 then char_of (48 + n) else char_of (55 + n))"

definition percent_byte :: "nat \<Rightarrow> string" where
  "percent_byte b = [CHR ''%'', upper_hex (b div 16), upper_hex (b mod 16)]"

definition unreserved :: "char \<Rightarrow> bool" where
  "unreserved c =
     ((65 \<le> py_ord c \<and> py_ord c \<le> 90) \<or> (97 \<le> py_ord c \<and> py_ord c \<le> 122) \<or> is_digit c
      \<or> c = CHR ''_'' \<or> c = CHR ''.'' \<or> c = CHR ''-'' \<or> c = CHR ''~'' \<or> c = CHR ''/'')"

definition quote_char :: "char \<Rightarrow> string" where
  "quote_char c =
     (if unreserved c then [c]
      else if py_ord c < 128 then percent_byte (py_ord c)
      else percent_byte (192 + py_ord c div 64) @ percent_byte (128 + py_ord c mod 64))"

definition url_quote :: "string \<Rightarrow> string" where
  "url_quote s = concat (map quote_char s)"

definition build_request_data :: "string \<Rightarrow> int option \<Rightarrow> string option \<Rightarrow> string" where
  "build_request_data query amount page_token =
     ''f.req='' @ url_quote (dumps_request (sub_payload query amount page_token))"


section \<open>The orchestrator: \<open>search_by_category\<close>\<close>

text \<open>\<open>for item in v\<close>: the items of a list, the characters of a text, the keys of a dictionary.\<close>

fun py_iter :: "'f pyval \<Rightarrow> exn + 'f pyval list" where
  "py_iter (PList xs) = Inr xs"
| "py_iter (PStr s) = Inr (map (\<lambda>c. PStr [c]) s)"
| "py_iter (PDict d) = Inr (map (\<lambda>kv. PStr (fst kv)) d)"
| "py_iter v = Inl TypeError"

text \<open>
  The loop over the raw entries of a page: an entry of positive length contributes the
  decoding of its first element, when that is an extension.
\<close>

fun collect_page :: "'f pylib \<Rightarrow> 'f pyval list \<Rightarrow> exn + 'f extension list" where
  "collect_page lib [] = Inr []"
| "collect_page lib (item # items) =
     then_do (py_len item) (\<lambda>n.
       if 0 < n then
         then_do (subscript item 0) (\<lambda>x.
         then_do (collect_page lib items) (\<lambda>rest.
           Inr (case parse_extension_data lib x of Some e \<Rightarrow> e # rest | None \<Rightarrow> rest)))
       else collect_page lib items)"

text \<open>
  The part of the \<open>try\<close> block that can raise, up to \<open>page_extensions\<close>: \<open>None\<close> stands
  for the \<open>break\<close> on an empty result.
\<close>

definition process_page :: "'f pylib \<Rightarrow> string \<Rightarrow> exn + 'f extension list option" where
  "process_page lib response_text =
     then_do (fix_json_response lib response_text) (\<lambda>raw_extensions.
     then_do (py_len raw_extensions) (\<lambda>n.
       if \<not> truthy lib raw_extensions then Inr None
       else then_do (py_iter raw_extensions) (\<lambda>items.
            then_do (collect_page lib items) (\<lambda>page_extensions. Inr (Some page_extensions)))))"

record config =
  cfg_delay_range :: "rat \<times> rat"
  cfg_max_retries :: int

text \<open>
  The \<open>while page_count < max_pages\<close> loop, on the variables \<open>all_extensions\<close>,
  \<open>page_token\<close> and \<open>page_count\<close>. The request is made before the \<open>try\<close> block is
  entered, so an exception of the transport client leaves the function; an exception
  inside the block ends the loop. The result is the returned list or the exception.
\<close>

function crawl_loop ::
  "'f pylib \<Rightarrow> world \<Rightarrow> config \<Rightarrow> string \<Rightarrow> int option \<Rightarrow> int \<Rightarrow>
   'f extension list \<Rightarrow> string option \<Rightarrow> nat \<Rightarrow> io \<Rightarrow> (exn + 'f extension list) \<times> io" where
  "crawl_loop lib w cfg categ results_per_page max_pages all_extensions page_token page_count s =
     (if int page_count < max_pages then
        (case make_request_with_retry w (cfg_max_retries cfg)
                (build_request_data categ results_per_page page_token) s of
           (Inl e, s1) \<Rightarrow> (Inl e, s1)
         | (Inr response_text, s1) \<Rightarrow>
             (case process_page lib response_text of
                Inl e \<Rightarrow> (Inr all_extensions, s1)
              | Inr None \<Rightarrow> (Inr all_extensions, s1)
              | Inr (Some page_extensions) \<Rightarrow>
                  (case fst (extract_pagination_token response_text) of
                     None \<Rightarrow> (Inr (all_extensions @ page_extensions), s1)
                   | Some next_token \<Rightarrow>
                       if next_token = [] then (Inr (all_extensions @ page_extensions), s1)
                       else crawl_loop lib w cfg categ results_per_page max_pages
                              (all_extensions @ page_extensions) (Some next_token) (Suc page_count)
                              (if int (Suc page_count) < max_pages
                               then add_delay w (cfg_delay_range cfg) s1 else s1))))
      else (Inr all_extensions, s))"
  by pat_completeness auto
termination
  by (relation "measure (\<lambda>(lib, w, cfg, categ, results_per_page, max_pages, all_extensions,
        page_token, page_count, s). nat (max_pages - int page_count))") auto

declare crawl_loop.simps [simp del]

definition search_by_category ::
  "'f pylib \<Rightarrow> world \<Rightarrow> config \<Rightarrow> string \<Rightarrow> int option \<Rightarrow> int \<Rightarrow> io \<Rightarrow>
   (exn + 'f extension list) \<times> io" where
  "search_by_category lib w cfg categ results_per_page max_pages s =
     crawl_loop lib w cfg categ results_per_page max_pages [] None 0 s"



section \<open>The coerced identifier and name of a row\<close>

text \<open>
  \<open>str(item[i]) if item[i] else ""\<close>, the expression that fills \<open>id\<close> (position 0) and
  \<open>name\<close> (position 2); a position that cannot be read has no text.
\<close>

definition coerced :: "'f pylib \<Rightarrow> 'f pyval \<Rightarrow> nat \<Rightarrow> string" where
  "coerced lib item i = (case subscript item i of Inl e \<Rightarrow> [] | Inr v \<Rightarrow> str_or_empty lib v)"


section \<open>A sample page and sample networks\<close>

text \<open>
  A row of nineteen positions with the identifier \<open>a\<close> and the name \<open>b\<close>, the extension
  it decodes to, and a response that carries this row and the page token \<open>t\<close>.
\<close>

definition sample_row :: "string pyval" where
  "sample_row = PList ([PStr ''a'', PNone, PStr ''b''] @ replicate 16 PNone)"

definition sample_extension :: "string extension" where
  "sample_extension =
     \<lparr>ext_id = ''a'', name = ''b'', display_name = [], short_description = [],
      category = None, icon_link = [], downloads = PNone, rating = None,
      rating_count = None, website = None, good_record = False, featured = False,
      create_date = ''Unknown'', version = PStr ''Unknown'',
      host_wide_permissions = False\<rparr>"

definition sample_row_text :: string where
  "sample_row_text =
     [dq] @ ''a'' @ [dq] @ '',null,'' @ [dq] @ ''b'' @ [dq] @ concat (replicate 16 '',null'')"

definition sample_page :: string where
  "sample_page =
     double_escape (open5 @ sample_row_text @ ''],1]]]]'') @ '']],['' @
     [bsl, dq] @ ''t'' @ [bsl, dq] @ '']''"

definition sample_config :: config where
  "sample_config = \<lparr>cfg_delay_range = (1, 2), cfg_max_retries = 1\<rparr>"

text \<open>A network that answers the first POST with the sample page and fails afterwards.\<close>

definition first_page_only :: world where
  "first_page_only =
     \<lparr>post = (\<lambda>i d. if i = 0 then Inr sample_page else Inl (RequestException ''down'')),
      uniform01 = (\<lambda>i. 1 / 2)\<rparr>"



section \<open>Results on the transport client\<close>

text \<open>
  C10. With a maximum attempt count of zero or below, the transport client issues no
  request, raises nothing and returns the empty text.
\<close>

theorem send_nonpositive_budget:
  "max_retries \<le> 0 \<Longrightarrow> make_request_with_retry w max_retries d s = (Inr [], s)"
  by (simp add: make_request_with_retry_def retry_loop.simps)

theorem send_nonpositive_budget_witness:
  "(0::int) \<le> 0 \<and> make_request_with_retry down 0 ''f.req=x'' io0 = (Inr [], io0)"
  using send_nonpositive_budget [of 0 down "''f.req=x''" io0]
  by simp

lemma retry_loop_posts_bound:
  "posts (snd (retry_loop w n d a s)) \<le> posts s + nat (n - int a)"
proof (induction w n d a s rule: retry_loop.induct)
  case (1 w n d a s)
  show ?case
  proof (cases "int a < n")
    case False
    then show ?thesis by (simp add: retry_loop.simps)
  next
    case True
    obtain r s1 where dp: "do_post w d s = (r, s1)" by (cases "do_post w d s")
    have p1: "posts s1 = Suc (posts s)" using dp by (auto simp: do_post_def)
    show ?thesis
    proof (cases r)
      case (Inr resp)
      then show ?thesis using True dp p1 by (simp add: retry_loop.simps)
    next
      case (Inl e)
      show ?thesis
      proof (cases "is_request_exception e \<and> int a < n - 1")
        case False
        then show ?thesis using True dp p1 Inl by (auto simp: retry_loop.simps)
      next
        case T2: True
        obtain jitter s2 where ru: "random_uniform w 0 1 s1 = (jitter, s2)"
          by (cases "random_uniform w 0 1 s1")
        have p2: "posts s2 = posts s1" using ru by (auto simp: random_uniform_def)
        have ih: "posts (snd (retry_loop w n d (Suc a) (time_sleep (2 ^ a + jitter) s2)))
                   \<le> posts (time_sleep (2 ^ a + jitter) s2) + nat (n - int (Suc a))"
          using "1.IH" [OF True dp [symmetric] _ _ _ ru [symmetric]] Inl T2 by simp
        have "retry_loop w n d a s = retry_loop w n d (Suc a) (time_sleep (2 ^ a + jitter) s2)"
          using True dp Inl T2 ru by (subst retry_loop.simps) simp
        moreover have "Suc (nat (n - (1 + int a))) = nat (n - int a)" using True by linarith
        ultimately show ?thesis using ih p1 p2 by (simp add: time_sleep_def)
      qed
    qed
  qed
qed

lemma retry_loop_fail_steps:
  "\<forall>k<j. \<exists>m. post w (posts s + k) d = Inl (RequestException m) \<Longrightarrow> int (a + j) < n \<Longrightarrow>
   retry_loop w n d a s =
   retry_loop w n d (a + j)
     (s\<lparr>posts := posts s + j, draws := draws s + j,
        trace := trace s @ backoff_events w d a (draws s) j\<rparr>)"
proof (induction j)
  case 0
  then show ?case by (simp add: backoff_events_def)
next
  case (Suc j)
  let ?sj = "s\<lparr>posts := posts s + j, draws := draws s + j,
        trace := trace s @ backoff_events w d a (draws s) j\<rparr>"
  have ih: "retry_loop w n d a s = retry_loop w n d (a + j) ?sj"
    using Suc by simp
  obtain m where m: "post w (posts s + j) d = Inl (RequestException m)"
    using Suc.prems(1) by blast
  have step: "retry_loop w n d (a + j) ?sj =
    retry_loop w n d (Suc (a + j))
      (s\<lparr>posts := posts s + Suc j, draws := draws s + Suc j,
        trace := trace s @ backoff_events w d a (draws s) (Suc j)\<rparr>)"
    using Suc.prems(2) m
    by (subst retry_loop.simps)
       (simp add: do_post_def random_uniform_def time_sleep_def backoff_events_def)
  show ?case using ih step by simp
qed

text \<open>
  C7, as the code has it. The client issues at most \<open>max_retries\<close> requests. When the
  first \<open>j\<close> attempts fail with a request exception, each failed attempt \<open>k\<close> is
  followed by one sleep of \<open>2 ^ k\<close> seconds plus the \<open>k\<close>-th draw of the random
  generator, so that sleep precedes attempt \<open>k + 1\<close>; a response to attempt \<open>j\<close> is
  returned, and a failure of the last attempt \<open>j = max_retries - 1\<close> is re-raised as
  it is, without a further sleep.
\<close>

theorem send_retry_schedule:
  "posts (snd (make_request_with_retry w n d s)) \<le> posts s + nat n \<and>
   ((\<forall>k<j. \<exists>m. post w (posts s + k) d = Inl (RequestException m)) \<longrightarrow>
      (int j < n \<and> post w (posts s + j) d = Inr resp \<longrightarrow>
         make_request_with_retry w n d s =
           (Inr resp, s\<lparr>posts := posts s + Suc j, draws := draws s + j,
                          trace := trace s @ backoff_events w d 0 (draws s) j @ [Post d]\<rparr>)) \<and>
      (int (Suc j) = n \<and> post w (posts s + j) d = Inl (RequestException m) \<longrightarrow>
         make_request_with_retry w n d s =
           (Inl (RequestException m),
            s\<lparr>posts := posts s + Suc j, draws := draws s + j,
              trace := trace s @ backoff_events w d 0 (draws s) j @ [Post d]\<rparr>)))"
proof (intro conjI impI)
  show "posts (snd (make_request_with_retry w n d s)) \<le> posts s + nat n"
    using retry_loop_posts_bound [of w n d 0 s] by (simp add: make_request_with_retry_def)
next
  assume f: "\<forall>k<j. \<exists>m. post w (posts s + k) d = Inl (RequestException m)"
    and h: "int j < n \<and> post w (posts s + j) d = Inr resp"
  have "retry_loop w n d 0 s = retry_loop w n d (0 + j)
     (s\<lparr>posts := posts s + j, draws := draws s + j,
        trace := trace s @ backoff_events w d 0 (draws s) j\<rparr>)"
    using f h by (intro retry_loop_fail_steps) auto
  also have "\<dots> = (Inr resp, s\<lparr>posts := posts s + Suc j, draws := draws s + j,
                          trace := trace s @ backoff_events w d 0 (draws s) j @ [Post d]\<rparr>)"
    using h by (subst retry_loop.simps) (simp add: do_post_def)
  finally show "make_request_with_retry w n d s =
           (Inr resp, s\<lparr>posts := posts s + Suc j, draws := draws s + j,
                          trace := trace s @ backoff_events w d 0 (draws s) j @ [Post d]\<rparr>)"
    by (simp add: make_request_with_retry_def)
next
  assume f: "\<forall>k<j. \<exists>m. post w (posts s + k) d = Inl (RequestException m)"
    and h: "int (Suc j) = n \<and> post w (posts s + j) d = Inl (RequestException m)"
  have "retry_loop w n d 0 s = retry_loop w n d (0 + j)
     (s\<lparr>posts := posts s + j, draws := draws s + j,
        trace := trace s @ backoff_events w d 0 (draws s) j\<rparr>)"
    using f h by (intro retry_loop_fail_steps) auto
  also have "\<dots> = (Inl (RequestException m),
            s\<lparr>posts := posts s + Suc j, draws := draws s + j,
              trace := trace s @ backoff_events w d 0 (draws s) j @ [Post d]\<rparr>)"
    using h by (subst retry_loop.simps) (auto simp: do_post_def)
  finally show "make_request_with_retry w n d s =
           (Inl (RequestException m),
            s\<lparr>posts := posts s + Suc j, draws := draws s + j,
              trace := trace s @ backoff_events w d 0 (draws s) j @ [Post d]\<rparr>)"
    by (simp add: make_request_with_retry_def)
qed

theorem send_retry_schedule_witness:
  "posts (snd (make_request_with_retry down 2 ''x'' io0)) \<le> posts io0 + nat 2 \<and>
   post down (posts io0 + 0) ''x'' = Inl (RequestException ''down'') \<and>
   int (Suc 1) = 2 \<and> post down (posts io0 + 1) ''x'' = Inl (RequestException ''down'') \<and>
   make_request_with_retry down 2 ''x'' io0 =
     (Inl (RequestException ''down''),
      \<lparr>posts = 2, draws = 1, trace = [Post ''x'', Sleep (3 / 2), Post ''x'']\<rparr>)"
  using send_retry_schedule [of down 2 "''x''" io0 1 "''ok''" "''down''"]
  by (simp add: down_def io0_def backoff_events_def)

text \<open>
  C7 as stated fails: with two attempts allowed and a first attempt that fails, the wait
  before attempt 1 is \<open>2 ^ 0\<close> seconds plus the jitter, below \<open>2 ^ 1\<close>; there is no
  wait before attempt 0.
\<close>

theorem send_wait_before_attempt_counterexample:
  "make_request_with_retry flaky 2 ''x'' io0 =
     (Inr ''ok'', \<lparr>posts = 2, draws = 1, trace = [Post ''x'', Sleep (3 / 2), Post ''x'']\<rparr>)
   \<and> (3 / 2 :: rat) < 2 ^ 1"
  by (simp add: make_request_with_retry_def retry_loop.simps flaky_def io0_def do_post_def
        random_uniform_def time_sleep_def)
section \<open>Results on the pagination tracker\<close>

lemma py_split_nonempty: "py_split sep s \<noteq> []"
  by (induction sep s rule: py_split.induct) (auto split: list.splits)

lemma py_split_no_sep: "\<not> contains sep s \<Longrightarrow> py_split sep s = [s]"
  by (induction sep s rule: py_split.induct) (auto split: list.splits)

lemma py_split_single_hd: "hd (py_split [c] s) = takeWhile (\<lambda>x. x \<noteq> c) s"
  using py_split_nonempty [of "[c]"]
  by (induction s) (auto simp: startswith_def split: list.splits)

lemma py_index_last: "xs \<noteq> [] \<Longrightarrow> py_index xs (- 1) = Inr (last xs)"
  by (cases xs rule: rev_cases) (auto simp: py_index_def nth_append)

lemma py_index_first: "xs \<noteq> [] \<Longrightarrow> py_index xs 0 = Inr (hd xs)"
  by (auto simp: py_index_def hd_conv_nth)

lemma token_total:
  "extract_pagination_token text =
     (Some (takeWhile (\<lambda>c. c \<noteq> bsl) (last (py_split [CHR ''['', bsl, dq] text))), None)"
  by (simp add: extract_pagination_token_def py_index_last py_index_first py_split_nonempty py_split_single_hd)

text \<open>
  C3. The documented result of the tracker is the token of the next page or \<open>None\<close>
  when there is none, and its handler returns \<open>None\<close> on any exception. The code does
  not behave so: neither the splits nor the index operations can raise, so for every
  text the tracker returns a token, never \<open>None\<close>, and writes no debug file. The token
  is the last segment of the split at the delimiter, cut at its first backslash; for a
  text without the delimiter this is the text itself up to its first backslash.
\<close>

theorem next_token_total:
  "extract_pagination_token text =
     (Some (takeWhile (\<lambda>c. c \<noteq> bsl) (last (py_split [CHR ''['', bsl, dq] text))), None)
   \<and> (\<not> contains [CHR ''['', bsl, dq] text \<longrightarrow>
        extract_pagination_token text = (Some (takeWhile (\<lambda>c. c \<noteq> bsl) text), None))"
  by (simp add: token_total py_split_no_sep)

theorem next_token_total_witness:
  "\<not> contains [CHR ''['', bsl, dq] ''abc'' \<and>
   extract_pagination_token ''abc'' = (Some (takeWhile (\<lambda>c. c \<noteq> bsl) ''abc''), None)"
  using next_token_total [of "''abc''"] by (simp add: startswith_def)

text \<open>
  The failing input: the text \<open>abc\<close> holds no delimiter, and the tracker returns the
  token \<open>abc\<close> where \<open>None\<close> is documented and claimed.
\<close>

theorem next_token_no_delimiter_counterexample:
  "\<not> contains [CHR ''['', bsl, dq] ''abc'' \<and> fst (extract_pagination_token ''abc'') = Some ''abc''"
  by (simp add: extract_pagination_token_def py_index_def startswith_def)
section \<open>Results on the response extractor\<close>

lemma py_split_hd_contains:
  "contains sep s \<Longrightarrow> sep \<noteq> [] \<Longrightarrow> 2 \<le> length (py_split sep s)"
proof (induction sep s rule: py_split.induct)
  case (1 sep)
  then show ?case by simp
next
  case (2 sep c cs)
  show ?case
  proof (cases "startswith sep (c # cs)")
    case True
    then show ?thesis using 2 py_split_nonempty [of sep "drop (length sep) (c # cs)"]
      by (cases "py_split sep (drop (length sep) (c # cs))") auto
  next
    case False
    then have "contains sep cs" using 2 by simp
    then have "2 \<le> length (py_split sep cs)" using 2 False by simp
    then show ?thesis using False by (auto split: list.splits)
  qed
qed

lemma py_index_1: "2 \<le> length xs \<Longrightarrow> py_index xs 1 = Inr (xs ! 1)"
  by (simp add: py_index_def)

lemma fix_json_text_total:
  "contains open5 t \<Longrightarrow> \<exists>step6. fix_json_text t = Inr step6"
  using py_split_hd_contains [of open5 t]
  by (simp add: fix_json_text_def py_index_1 py_index_first py_split_nonempty Let_def)


lemma hd_split_no_sep: "\<not> contains sep s \<Longrightarrow> hd (py_split sep s) = s"
  by (simp add: py_split_no_sep)

lemma fix_json_text_value:
  assumes "contains open5 t"
  shows "py_index (py_split open5 t) 1 = Inr (py_split open5 t ! 1) \<and>
         fix_json_text t =
           Inr (drop_last2 (py_replace [nl] [] (py_replace [bsl, dq] [dq]
                 (py_replace [bsl, bsl] [bsl]
                    (hd (py_split close6 (open5 @ py_split open5 t ! 1)) @ close6)))))"
proof -
  have "2 \<le> length (py_split open5 t)" using assms py_split_hd_contains [of open5 t] by simp
  then have a: "py_index (py_split open5 t) 1 = Inr (py_split open5 t ! 1)" by (rule py_index_1)
  have b: "py_index (py_split close6 (open5 @ py_split open5 t ! 1)) 0 =
           Inr (hd (py_split close6 (open5 @ py_split open5 t ! 1)))"
    using py_split_nonempty by (rule py_index_first)
  have c: "fix_json_text t =
             Inr (drop_last2 (py_replace [nl] [] (py_replace [bsl, dq] [dq]
                   (py_replace [bsl, bsl] [bsl]
                      (hd (py_split close6 (open5 @ py_split open5 t ! 1)) @ close6)))))"
    by (simp only: fix_json_text_def Let_def a b sum.case)
  show ?thesis using a c by (rule conjI)
qed

text \<open>
  C6, as the code has it. A response without the run of five opening brackets raises
  \<open>ValueError\<close>. With that run present the text surgery raises nothing and yields a text,
  whether or not a run of six closing brackets follows: of the segment between the first
  run of five opening brackets and the next such run (or the end of the response), with
  the five brackets put back in front, the part before the first run of six closing
  brackets is kept, which is the whole of it when it holds no such run; six closing
  brackets are appended, the escapes and line feeds are removed and the last two
  characters are dropped. \<open>ValueError\<close> is raised when the decoder rejects that text.
\<close>

theorem extract_raises_value_error:
  "(\<not> contains open5 t \<longrightarrow> fix_json_response lib t = Inl ValueError) \<and>
   (contains open5 t \<longrightarrow>
      (\<exists>seg. py_index (py_split open5 t) 1 = Inr seg \<and>
         fix_json_text t =
           Inr (drop_last2 (py_replace [nl] [] (py_replace [bsl, dq] [dq]
                 (py_replace [bsl, bsl] [bsl] (hd (py_split close6 (open5 @ seg)) @ close6))))) \<and>
         (\<not> contains close6 (open5 @ seg) \<longrightarrow>
            hd (py_split close6 (open5 @ seg)) = open5 @ seg))) \<and>
   (contains open5 t \<and> fix_json_text t = Inr step6 \<and> json_loads lib step6 = Inl JSONDecodeError
      \<longrightarrow> fix_json_response lib t = Inl ValueError)"
proof (intro conjI impI)
  assume "\<not> contains open5 t"
  then show "fix_json_response lib t = Inl ValueError" by (simp add: fix_json_response_def)
next
  assume c: "contains open5 t"
  have n: "\<not> contains close6 (open5 @ py_split open5 t ! 1) \<longrightarrow>
            hd (py_split close6 (open5 @ py_split open5 t ! 1)) = open5 @ py_split open5 t ! 1"
  proof (rule impI)
    assume "\<not> contains close6 (open5 @ py_split open5 t ! 1)"
    then show "hd (py_split close6 (open5 @ py_split open5 t ! 1)) =
               open5 @ py_split open5 t ! 1"
      by (rule hd_split_no_sep)
  qed
  show "\<exists>seg. py_index (py_split open5 t) 1 = Inr seg \<and>
         fix_json_text t =
           Inr (drop_last2 (py_replace [nl] [] (py_replace [bsl, dq] [dq]
                 (py_replace [bsl, bsl] [bsl] (hd (py_split close6 (open5 @ seg)) @ close6))))) \<and>
         (\<not> contains close6 (open5 @ seg) \<longrightarrow>
            hd (py_split close6 (open5 @ seg)) = open5 @ seg)"
    using fix_json_text_value [OF c] n
    by (intro exI [of _ "py_split open5 t ! 1"] conjI) (rule conjunct1, assumption,
        rule conjunct2, assumption, assumption)
next
  assume "contains open5 t \<and> fix_json_text t = Inr step6 \<and>
          json_loads lib step6 = Inl JSONDecodeError"
  then show "fix_json_response lib t = Inl ValueError"
    by (simp add: fix_json_response_def load_rows_def)
qed

theorem extract_raises_value_error_witness:
  "\<not> contains open5 ''x'' \<and> fix_json_response text_lib ''x'' = Inl ValueError \<and>
   contains open5 ''[[[[['' \<and> py_index (py_split open5 ''[[[[['') 1 = Inr [] \<and>
   \<not> contains close6 (open5 @ []) \<and> hd (py_split close6 (open5 @ [])) = open5 @ [] \<and>
   fix_json_text ''[[[[['' = Inr ''[[[[[]]]]'' \<and>
   json_loads text_lib ''[[[[[]]]]'' = Inl JSONDecodeError \<and>
   fix_json_response text_lib ''[[[[['' = Inl ValueError"
proof -
  have n: "\<not> contains open5 ''x''" by code_simp
  have a: "contains open5 ''[[[[[''" by code_simp
  have s: "py_index (py_split open5 ''[[[[['') 1 = Inr []" by code_simp
  have k: "\<not> contains close6 (open5 @ [])" by code_simp
  have h: "hd (py_split close6 (open5 @ [])) = open5 @ []" by code_simp
  have b: "fix_json_text ''[[[[['' = Inr ''[[[[[]]]]''" by code_simp
  have c: "json_loads text_lib ''[[[[[]]]]'' = Inl JSONDecodeError" by code_simp
  have r1: "fix_json_response text_lib ''x'' = Inl ValueError"
    using extract_raises_value_error [of "''x''" text_lib, THEN conjunct1] n by (rule mp)
  have abc: "contains open5 ''[[[[['' \<and> fix_json_text ''[[[[['' = Inr ''[[[[[]]]]'' \<and>
      json_loads text_lib ''[[[[[]]]]'' = Inl JSONDecodeError"
    by (rule conjI [OF a conjI [OF b c]])
  have r3: "fix_json_response text_lib ''[[[[['' = Inl ValueError"
    using extract_raises_value_error [of "''[[[[[''" text_lib "''[[[[[]]]]''",
        THEN conjunct2, THEN conjunct2] abc by (rule mp)
  from n r1 a s k h b c r3 show ?thesis by (intro conjI)
qed

text \<open>
  C6 as stated fails: a response without the closing sentinel is extracted, when the
  text after the opening sentinel closes one bracket.
\<close>

theorem extract_without_closing_sentinel_counterexample:
  "\<not> contains close6 ''[[[[[1]'' \<and>
   fix_json_text ''[[[[[1]'' = Inr ''[[[[[1]]]]]'' \<and>
   fix_json_response text_lib ''[[[[[1]'' = Inr (PList [PList [PList [PInt 1]]])"
  by code_simp

section \<open>Results on the clean-up of the envelope\<close>

lemma startswith_append_notin:
  "\<not> startswith sep a \<Longrightarrow> c \<notin> set sep \<Longrightarrow> \<not> startswith sep (a @ c # b)"
proof
  assume n: "\<not> startswith sep a" and c: "c \<notin> set sep" and s: "startswith sep (a @ c # b)"
  show False
  proof (cases "length sep \<le> length a")
    case True
    then show False using n s by (simp add: startswith_def)
  next
    case False
    then have "length a < length sep" by simp
    moreover have "sep = take (length sep) (a @ c # b)" using s by (simp add: startswith_def)
    ultimately have "sep ! length a = c"
      by (metis nth_append_length nth_take)
    then show False using c \<open>length a < length sep\<close> by (metis nth_mem)
  qed
qed

lemma py_split_step_notin:
  "c \<notin> set sep \<Longrightarrow>
   py_split sep (c # b) = (case py_split sep b of s # ss \<Rightarrow> (c # s) # ss | [] \<Rightarrow> [[c]])"
  by (cases sep) (auto simp: startswith_def)

lemma py_split_prefix_notin:
  "\<not> contains sep a \<Longrightarrow> c \<notin> set sep \<Longrightarrow>
   py_split sep (a @ c # b) = (case py_split sep (c # b) of s # ss \<Rightarrow> (a @ s) # ss | [] \<Rightarrow> [a])"
proof (induction a)
  case Nil
  then show ?case using py_split_nonempty [of sep "c # b"] by (auto split: list.splits)
next
  case (Cons x a)
  have "\<not> startswith sep (x # a)" using Cons.prems by simp
  then have "\<not> startswith sep ((x # a) @ c # b)"
    using Cons.prems(2) by (rule startswith_append_notin)
  moreover have "\<not> contains sep a" using Cons.prems by simp
  ultimately show ?case using Cons.IH Cons.prems(2) py_split_nonempty [of sep "c # b"]
    by (auto split: list.splits)
qed

lemma py_split_first:
  "\<not> contains sep (a @ butlast sep) \<Longrightarrow> sep \<noteq> [] \<Longrightarrow>
   py_split sep (a @ sep @ b) = a # py_split sep b"
proof (induction a)
  case Nil
  then show ?case by (cases sep) (auto simp: startswith_def)
next
  case (Cons x a)
  have n: "\<not> startswith sep (x # a @ butlast sep)" using Cons.prems by simp
  have len: "length sep \<le> length (x # a @ butlast sep)" using Cons.prems(2) by simp
  have "take (length sep) (x # a @ sep @ b) = take (length sep) (x # a @ butlast sep)"
  proof -
    have "x # a @ sep @ b = (x # a @ butlast sep) @ (last sep # b)"
      using Cons.prems(2) by simp
    then show ?thesis using len by (metis append_Nil2 diff_is_0_eq' take_0 take_append)
  qed
  then have "\<not> startswith sep (x # a @ sep @ b)" using n by (simp add: startswith_def)
  moreover have "\<not> contains sep (a @ butlast sep)" using Cons.prems by simp
  ultimately show ?case using Cons.IH Cons.prems(2) by simp
qed


lemma py_replace_step_notin:
  "c \<notin> set old \<Longrightarrow> py_replace old new (c # s) = c # py_replace old new s"
  by (cases old) (auto simp: startswith_def)

lemma unescape_backslashes:
  "py_replace [bsl, bsl] [bsl] (double_escape u @ r) =
   quote_escape u @ py_replace [bsl, bsl] [bsl] r"
  by (induction u)
     (auto simp: double_escape_def quote_escape_def escape_char_def startswith_def)

lemma unescape_quotes:
  "r = [] \<or> hd r \<noteq> dq \<Longrightarrow>
   py_replace [bsl, dq] [dq] (quote_escape u @ r) = u @ py_replace [bsl, dq] [dq] r"
proof (induction u)
  case Nil
  then show ?case by (simp add: quote_escape_def)
next
  case (Cons c u)
  have ih: "py_replace [bsl, dq] [dq] (quote_escape u @ r) = u @ py_replace [bsl, dq] [dq] r"
    using Cons by simp
  have q: "quote_escape (c # u) = (if c = dq then [bsl, dq] else [c]) @ quote_escape u"
    by (simp add: quote_escape_def)
  show ?case
  proof (cases "c = dq")
    case True
    then show ?thesis using ih q by (simp add: startswith_def)
  next
    case False
    have "\<not> startswith [bsl, dq] (c # quote_escape u @ r)"
    proof (cases u)
      case Nil
      then show ?thesis using Cons.prems by (cases r) (auto simp: startswith_def quote_escape_def)
    next
      case (Cons d u')
      then show ?thesis by (auto simp: startswith_def quote_escape_def)
    qed
    then show ?thesis using ih q False by simp
  qed
qed

lemma strip_newlines: "py_replace [nl] [] s = filter (\<lambda>c. c \<noteq> nl) s"
  by (induction s) (auto simp: startswith_def)

lemma fix_json_text_envelope:
  assumes h1: "\<not> contains open5 (pre @ ''[[[['')"
    and h2: "\<not> contains open5 (double_escape inner)"
    and h3: "\<not> contains close6 (open5 @ double_escape inner @ '']]]]]'')"
    and h4: "nl \<notin> set inner"
  shows "fix_json_text (pre @ open5 @ double_escape inner @ close6 @ suf) =
         Inr (open5 @ inner @ '']]]]'')"
proof -
  let ?E = "double_escape inner"
  obtain p ps where p: "py_split open5 suf = p # ps"
    using py_split_nonempty [of open5 suf] by (cases "py_split open5 suf") auto
  have s1: "py_split open5 (pre @ open5 @ ?E @ close6 @ suf) =
            pre # py_split open5 (?E @ close6 @ suf)"
    using py_split_first [of open5 pre "?E @ close6 @ suf"] h1 by simp
  have s2: "py_split open5 (?E @ close6 @ suf) = (?E @ close6 @ p) # ps"
    using py_split_prefix_notin [of open5 ?E "CHR '']''" "'']]]]]'' @ suf"] h2 p
    by (simp add: py_split_step_notin del: py_split.simps(2))
  have seg: "py_index (py_split open5 (pre @ open5 @ ?E @ close6 @ suf)) 1 = Inr (?E @ close6 @ p)"
    using s1 s2 by (simp add: py_index_def)
  have s3: "py_split close6 (open5 @ ?E @ close6 @ p) = (open5 @ ?E) # py_split close6 p"
    using py_split_first [of close6 "open5 @ ?E" p] h3 by simp
  have front: "py_index (py_split close6 (open5 @ ?E @ close6 @ p)) 0 = Inr (open5 @ ?E)"
    using s3 by (simp add: py_index_def)
  have r3: "py_replace [bsl, bsl] [bsl] (open5 @ ?E @ close6) = open5 @ quote_escape inner @ close6"
    using unescape_backslashes [of inner close6]
    by (simp add: py_replace_step_notin del: py_replace.simps(2))
  have r4: "py_replace [bsl, dq] [dq] (open5 @ quote_escape inner @ close6) = open5 @ inner @ close6"
    using unescape_quotes [of close6 inner]
    by (simp add: py_replace_step_notin del: py_replace.simps(2))
  have r5: "py_replace [nl] [] (open5 @ inner @ close6) = open5 @ inner @ close6"
    using h4 by (auto simp: strip_newlines filter_id_conv simp del: py_replace.simps)
  have r6: "drop_last2 (open5 @ inner @ close6) = open5 @ inner @ '']]]]''"
    by (simp add: drop_last2_def)
  show ?thesis
    using seg front r3 r4 r5 r6
    by (simp add: fix_json_text_def Let_def del: py_split.simps py_replace.simps)
qed


lemma startswith_Cons: "startswith (d # sep) (x # xs) = (d = x \<and> startswith sep xs)"
  by (auto simp: startswith_def)

lemma startswith_Nil: "startswith [] xs" "startswith (d # sep) [] = False"
  by (auto simp: startswith_def)

lemma startswith_escape:
  "bsl \<notin> set sep \<Longrightarrow> dq \<notin> set sep \<Longrightarrow>
   startswith sep (double_escape u @ r) = startswith sep (u @ r)"
proof (induction u arbitrary: sep)
  case Nil
  then show ?case by (simp add: double_escape_def)
next
  case (Cons c u)
  have e: "double_escape (c # u) = escape_char c @ double_escape u"
    by (simp add: double_escape_def)
  show ?case
  proof (cases sep)
    case Nil
    then show ?thesis by (simp add: startswith_Nil)
  next
    case (Cons d sep')
    then have "startswith sep' (double_escape u @ r) = startswith sep' (u @ r)"
      using Cons.IH [of sep'] Cons.prems by simp
    then show ?thesis using Cons Cons.prems e
      by (auto simp: escape_char_def startswith_Cons)
  qed
qed

lemma contains_escape:
  "bsl \<notin> set sep \<Longrightarrow> dq \<notin> set sep \<Longrightarrow> sep \<noteq> [] \<Longrightarrow>
   contains sep (double_escape u @ r) = contains sep (u @ r)"
proof (induction u)
  case Nil
  then show ?case by (simp add: double_escape_def)
next
  case (Cons c u)
  obtain d sep' where sep: "sep = d # sep'" using Cons.prems(3) by (cases sep) auto
  have d: "d \<noteq> bsl" "d \<noteq> dq" using Cons.prems sep by auto
  have ih: "contains sep (double_escape u @ r) = contains sep (u @ r)" using Cons by simp
  show ?case
  proof (cases "c = bsl \<or> c = dq")
    case True
    then show ?thesis using ih sep d
      by (auto simp: double_escape_def escape_char_def startswith_Cons)
  next
    case False
    then have e: "double_escape (c # u) @ r = c # double_escape u @ r"
      by (simp add: double_escape_def escape_char_def)
    have "startswith sep (double_escape (c # u) @ r) = startswith sep ((c # u) @ r)"
      using Cons.prems(1,2) by (rule startswith_escape)
    then show ?thesis using ih e by simp
  qed
qed

lemma contains_startswith: "startswith sep s \<Longrightarrow> contains sep s"
  by (cases s) (auto simp: startswith_def)

lemma contains_here: "contains sep (a @ sep @ b)"
  by (induction a) (auto intro: contains_startswith simp: startswith_def)

lemma double_escape_append: "double_escape (a @ b) = double_escape a @ double_escape b"
  by (simp add: double_escape_def)

text \<open>
  C4, as the code has it. Let \<open>S\<close> be a text made of five opening brackets, a middle
  part and four closing brackets, where the middle part holds no line feed and no run of
  five opening brackets, and the middle part followed by five closing brackets holds no
  run of six closing brackets (so the middle part does not end with a closing bracket).
  When \<open>S\<close> is embedded double-escaped, after a prefix in which the opening run does not
  begin earlier, and followed by two more closing brackets and any suffix, the extractor
  returns what decoding \<open>S\<close> itself and taking element \<open>[0][0]\<close> returns. The last
  step of the clean-up removes two of the six closing brackets the step before appended.
\<close>

theorem extract_envelope_round_trip:
  assumes "\<not> contains open5 (pre @ ''[[[['')"
    and "\<not> contains open5 inner"
    and "\<not> contains close6 (inner @ '']]]]]'')"
    and "nl \<notin> set inner"
  shows "fix_json_response lib (pre @ double_escape (open5 @ inner @ '']]]]'') @ '']]'' @ suf) =
         reraise_value_error (load_rows lib (open5 @ inner @ '']]]]''))"
proof -
  have b5: "double_escape open5 = open5" and b4: "double_escape '']]]]'' = '']]]]''"
    by (simp_all add: double_escape_def escape_char_def)
  have "double_escape (open5 @ inner @ '']]]]'') = open5 @ double_escape inner @ '']]]]''"
    by (simp only: double_escape_append b5 b4)
  then have t: "pre @ double_escape (open5 @ inner @ '']]]]'') @ '']]'' @ suf =
           pre @ open5 @ double_escape inner @ close6 @ suf"
    by simp
  have h2: "\<not> contains open5 (double_escape inner)"
    using contains_escape [of open5 inner "[]"] assms(2) by simp
  have "\<not> contains close6 (double_escape inner @ '']]]]]'')"
    using contains_escape [of close6 inner "'']]]]]''"] assms(3) by simp
  then have h3: "\<not> contains close6 (open5 @ double_escape inner @ '']]]]]'')"
    by (simp add: startswith_Cons)
  have c: "contains open5 (pre @ open5 @ double_escape inner @ close6 @ suf)"
    by (rule contains_here)
  have "fix_json_text (pre @ open5 @ double_escape inner @ close6 @ suf) =
        Inr (open5 @ inner @ '']]]]'')"
    using assms(1) h2 h3 assms(4) by (rule fix_json_text_envelope)
  then show ?thesis using c unfolding t fix_json_response_def by simp
qed


theorem extract_envelope_round_trip_witness:
  "\<not> contains open5 (''x'' @ ''[[[['') \<and> \<not> contains open5 ([dq] @ ''a'' @ [dq] @ ''],2'') \<and>
   \<not> contains close6 (([dq] @ ''a'' @ [dq] @ ''],2'') @ '']]]]]'') \<and>
   nl \<notin> set ([dq] @ ''a'' @ [dq] @ ''],2'') \<and>
   fix_json_response text_lib
     (''x'' @ double_escape (open5 @ ([dq] @ ''a'' @ [dq] @ ''],2'') @ '']]]]'') @ '']]'' @ ''y'') =
   Inr (PList [PList [PList [PStr ''a''], PInt 2]])"
proof -
  have a: "\<not> contains open5 (''x'' @ ''[[[['')" by code_simp
  have b: "\<not> contains open5 ([dq] @ ''a'' @ [dq] @ ''],2'')" by code_simp
  have c: "\<not> contains close6 (([dq] @ ''a'' @ [dq] @ ''],2'') @ '']]]]]'')" by code_simp
  have d: "nl \<notin> set ([dq] @ ''a'' @ [dq] @ ''],2'')" by simp
  have e: "reraise_value_error (load_rows text_lib (open5 @ ([dq] @ ''a'' @ [dq] @ ''],2'') @ '']]]]'')) =
           Inr (PList [PList [PList [PStr ''a''], PInt 2]])" by code_simp
  show ?thesis
    using extract_envelope_round_trip [OF a b c d, of text_lib "''y''"] a b c d e by metis
qed

text \<open>
  C4 as stated fails: the payload \<open>[[[[[[1]]]]]]\<close> is valid JSON with both sentinels
  and has nothing to escape, yet the extractor raises on it, alone or followed by two
  closing brackets, while decoding it directly gives the rows. The last step removes
  the last two characters whatever they are, two brackets here and not a comma.
\<close>

theorem extract_round_trip_counterexample:
  "double_escape ''[[[[[[1]]]]]]'' = ''[[[[[[1]]]]]]'' \<and>
   load_rows text_lib ''[[[[[[1]]]]]]'' = Inr (PList [PList [PList [PList [PInt 1]]]]) \<and>
   fix_json_response text_lib ''[[[[[[1]]]]]]'' = Inl ValueError \<and>
   fix_json_response text_lib (''[[[[[[1]]]]]]'' @ '']]'') = Inl ValueError \<and>
   fix_json_text (''[[[[[[1]]]]]]'' @ '','') = Inr ''[[[[[[1]]]]''"
  by code_simp



section \<open>Decoded extensions have an identifier and a name\<close>

lemma then_do_Inr: "then_do r f = Inr y \<Longrightarrow> \<exists>x. r = Inr x \<and> f x = Inr y"
  by (cases r) (auto simp: then_do_def)

lemma build_extension_id_name:
  assumes "build_extension lib item = Inr e"
  shows "\<exists>i0 i2. subscript item 0 = Inr i0 \<and> subscript item 2 = Inr i2 \<and>
           ext_id e = str_or_empty lib i0 \<and> name e = str_or_empty lib i2"
  using assms unfolding build_extension_def
  by (auto dest!: then_do_Inr)

lemma decode_valid:
  "parse_extension_data lib item = Some e \<Longrightarrow> ext_id e \<noteq> [] \<and> name e \<noteq> []"
  by (auto simp: parse_extension_data_def split: if_splits sum.splits)

lemma decode_empty_none:
  "coerced lib item 0 = [] \<or> coerced lib item 2 = [] \<Longrightarrow> parse_extension_data lib item = None"
proof (cases "build_extension lib item")
  case (Inl e)
  then show ?thesis by (simp add: parse_extension_data_def)
next
  case (Inr e)
  assume c: "coerced lib item 0 = [] \<or> coerced lib item 2 = []"
  from build_extension_id_name [OF Inr] obtain i0 i2 where
    "subscript item 0 = Inr i0" "subscript item 2 = Inr i2"
    "ext_id e = str_or_empty lib i0" "name e = str_or_empty lib i2" by blast
  then have "ext_id e = [] \<or> name e = []" using c by (auto simp: coerced_def)
  then show ?thesis using Inr by (auto simp: parse_extension_data_def)
qed

lemma collect_page_valid:
  "collect_page lib items = Inr es \<Longrightarrow> \<forall>e\<in>set es. ext_id e \<noteq> [] \<and> name e \<noteq> []"
proof (induction items arbitrary: es)
  case Nil
  then show ?case by simp
next
  case (Cons item items)
  from Cons.prems obtain n where n: "py_len item = Inr n"
    and r: "(if 0 < n then
         then_do (subscript item 0) (\<lambda>x.
         then_do (collect_page lib items) (\<lambda>rest.
           Inr (case parse_extension_data lib x of Some e \<Rightarrow> e # rest | None \<Rightarrow> rest)))
       else collect_page lib items) = Inr es"
    by (auto dest!: then_do_Inr)
  show ?case
  proof (cases "0 < n")
    case False
    then show ?thesis using r Cons.IH by simp
  next
    case True
    then obtain x rest where "collect_page lib items = Inr rest"
      and es: "es = (case parse_extension_data lib x of Some e \<Rightarrow> e # rest | None \<Rightarrow> rest)"
      using r by (auto dest!: then_do_Inr)
    then have "\<forall>e\<in>set rest. ext_id e \<noteq> [] \<and> name e \<noteq> []" using Cons.IH by blast
    then show ?thesis using es decode_valid [of lib x]
      by (cases "parse_extension_data lib x") auto
  qed
qed

lemma process_page_valid:
  "process_page lib t = Inr (Some es) \<Longrightarrow> \<forall>e\<in>set es. ext_id e \<noteq> [] \<and> name e \<noteq> []"
proof -
  assume "process_page lib t = Inr (Some es)"
  then obtain items where "collect_page lib items = Inr es"
    unfolding process_page_def by (auto dest!: then_do_Inr split: if_splits)
  then show ?thesis by (rule collect_page_valid)
qed


lemma crawl_loop_valid:
  "\<forall>e\<in>set acc. ext_id e \<noteq> [] \<and> name e \<noteq> [] \<Longrightarrow>
   crawl_loop lib w cfg categ rpp max_pages acc tok n s = (Inr es, s') \<Longrightarrow>
   \<forall>e\<in>set es. ext_id e \<noteq> [] \<and> name e \<noteq> []"
proof (induction lib w cfg categ rpp max_pages acc tok n s rule: crawl_loop.induct)
  case (1 lib w cfg categ rpp max_pages acc tok n s)
  show ?case
  proof (cases "int n < max_pages")
    case False
    then show ?thesis using "1.prems" by (simp add: crawl_loop.simps)
  next
    case True
    obtain r s1 where mr: "make_request_with_retry w (cfg_max_retries cfg)
                (build_request_data categ rpp tok) s = (r, s1)"
      by (cases "make_request_with_retry w (cfg_max_retries cfg) (build_request_data categ rpp tok) s")
    show ?thesis
    proof (cases r)
      case (Inl e)
      then show ?thesis using "1.prems" True mr by (simp add: crawl_loop.simps)
    next
      case (Inr resp)
      show ?thesis
      proof (cases "process_page lib resp")
        case (Inl e)
        then show ?thesis using "1.prems" True mr Inr by (simp add: crawl_loop.simps)
      next
        case pp: (Inr po)
        show ?thesis
        proof (cases po)
          case None
          then show ?thesis using "1.prems" True mr Inr pp by (simp add: crawl_loop.simps)
        next
          case (Some pes)
          have v: "\<forall>e\<in>set (acc @ pes). ext_id e \<noteq> [] \<and> name e \<noteq> []"
            using "1.prems"(1) process_page_valid [of lib resp pes] pp Some by auto
          show ?thesis
          proof (cases "fst (extract_pagination_token resp)")
            case None
            then show ?thesis using "1.prems"(2) True mr Inr pp Some v
              by (simp add: crawl_loop.simps)
          next
            case tk: (Some next_token)
            show ?thesis
            proof (cases "next_token = []")
              case True
              then show ?thesis using "1.prems"(2) \<open>int n < max_pages\<close> mr Inr pp Some v tk
                by (simp add: crawl_loop.simps)
            next
              case False
              have "crawl_loop lib w cfg categ rpp max_pages (acc @ pes) (Some next_token) (Suc n)
                      (if int (Suc n) < max_pages then add_delay w (cfg_delay_range cfg) s1 else s1)
                    = (Inr es, s')"
                using "1.prems"(2) True mr Inr pp Some tk False
                by (subst (asm) crawl_loop.simps) simp
              then show ?thesis
                using "1.IH" [OF True mr [symmetric] Inr pp Some tk False v] by blast
            qed
          qed
        qed
      qed
    qed
  qed
qed

text \<open>
  C9. An extension returned by \<open>parse_extension_data\<close> has a non-empty identifier and a
  non-empty name; a row whose identifier or name coerces to the empty string is decoded
  to \<open>None\<close>, which is a returned value and not an exception; and every extension in
  a list returned by \<open>search_by_category\<close> has a non-empty identifier and a non-empty
  name, whatever the network answers.
\<close>

theorem decode_id_name_nonempty:
  "(parse_extension_data lib item = Some e \<longrightarrow> ext_id e \<noteq> [] \<and> name e \<noteq> []) \<and>
   (coerced lib item 0 = [] \<or> coerced lib item 2 = [] \<longrightarrow>
      parse_extension_data lib item = None) \<and>
   (search_by_category lib w cfg categ results_per_page max_pages s = (Inr es, s') \<and>
      x \<in> set es \<longrightarrow> ext_id x \<noteq> [] \<and> name x \<noteq> [])"
proof (intro conjI impI)
  assume "parse_extension_data lib item = Some e"
  then show "ext_id e \<noteq> []" and "name e \<noteq> []" using decode_valid by blast+
next
  assume "coerced lib item 0 = [] \<or> coerced lib item 2 = []"
  then show "parse_extension_data lib item = None" by (rule decode_empty_none)
next
  assume a: "search_by_category lib w cfg categ results_per_page max_pages s = (Inr es, s') \<and>
      x \<in> set es"
  have "\<forall>e\<in>set es. ext_id e \<noteq> [] \<and> name e \<noteq> []"
    using crawl_loop_valid [of "[]" lib w cfg categ results_per_page max_pages None 0 s es s'] a
    by (simp add: search_by_category_def)
  then show "ext_id x \<noteq> []" and "name x \<noteq> []" using a by blast+
qed

theorem decode_id_name_nonempty_witness:
  "parse_extension_data text_lib sample_row = Some sample_extension \<and>
   ext_id sample_extension \<noteq> [] \<and> name sample_extension \<noteq> [] \<and>
   coerced text_lib (PList [PStr ''a'']) 2 = [] \<and>
   parse_extension_data text_lib (PList [PStr ''a'']) = None \<and>
   fst (search_by_category text_lib first_page_only sample_config ''c'' None 1 io0) =
     Inr [sample_extension] \<and>
   sample_extension \<in> set [sample_extension]"
proof -
  have a: "parse_extension_data text_lib sample_row = Some sample_extension" by code_simp
  have b: "coerced text_lib (PList [PStr ''a'']) 2 = []" by code_simp
  have c: "fst (search_by_category text_lib first_page_only sample_config ''c'' None 1 io0) =
     Inr [sample_extension]" by code_simp
  have d: "search_by_category text_lib first_page_only sample_config ''c'' None 1 io0 =
     (Inr [sample_extension],
      snd (search_by_category text_lib first_page_only sample_config ''c'' None 1 io0))"
    using c by (metis prod.collapse)
  have m: "sample_extension \<in> set [sample_extension]" by simp
  show ?thesis
    using decode_id_name_nonempty [of text_lib sample_row sample_extension first_page_only
        sample_config "''c''" None 1 io0 "[sample_extension]"
        "snd (search_by_category text_lib first_page_only sample_config ''c'' None 1 io0)"
        sample_extension]
      decode_id_name_nonempty [of text_lib "PList [PStr ''a'']"]
      a b c d m by blast
qed


section \<open>Failures during a crawl\<close>





end
